theory Spec2Isabelle
  imports Main "HOL-Library.Sublist"
begin

section \<open>Text: characters, Python string helpers, regular-expression passes\<close>

text \<open>
  A Python \<open>str\<close> is modelled as a HOL \<open>string\<close>; a \<open>char\<close> stands for the code
  point of the same number, so the model covers text of code points below 256 (ASCII and
  Latin-1).  Character classes are written with code-point ranges, as the regular
  expressions of the source write them.
\<close>

definition codepoint :: "char \<Rightarrow> nat" where
  "codepoint c = of_char c"

text \<open>The class \<open>[a-zA-Z0-9]\<close> of \<open>models.slugify\<close>.\<close>

definition is_ascii_alnum :: "char \<Rightarrow> bool" where
  "is_ascii_alnum c =
     ((97 \<le> codepoint c \<and> codepoint c \<le> 122) \<or> (65 \<le> codepoint c \<and> codepoint c \<le> 90) \<or>
      (48 \<le> codepoint c \<and> codepoint c \<le> 57))"

text \<open>
  \<open>str.lower()\<close>, one character at a time: \<open>A\<close>..\<open>Z\<close> and the Latin-1 capitals
  (U+00C0..U+00DE without the multiplication sign U+00D7) move up by 32, every other
  code point below 256 is unchanged.
\<close>

definition lower_char :: "char \<Rightarrow> char" where
  "lower_char c =
     (if (65 \<le> codepoint c \<and> codepoint c \<le> 90) \<or> (192 \<le> codepoint c \<and> codepoint c \<le> 222 \<and> codepoint c \<noteq> 215)
      then char_of (codepoint c + 32) else c)"

definition py_lower :: "string \<Rightarrow> string" where
  "py_lower s = map lower_char s"

text \<open>
  The white space of \<open>str.strip()\<close> and of \<open>\s\<close> below 256: TAB..CR, FS..US, space,
  NEL (U+0085) and the no-break space (U+00A0).
\<close>

definition is_space :: "char \<Rightarrow> bool" where
  "is_space c =
     ((9 \<le> codepoint c \<and> codepoint c \<le> 13) \<or> (28 \<le> codepoint c \<and> codepoint c \<le> 32) \<or>
      codepoint c = 133 \<or> codepoint c = 160)"

text \<open>\<open>s.strip(chars)\<close>: the characters of the class are dropped at both ends.\<close>

definition strip_where :: "(char \<Rightarrow> bool) \<Rightarrow> string \<Rightarrow> string" where
  "strip_where p s = rev (dropWhile p (rev (dropWhile p s)))"

definition py_strip :: "string \<Rightarrow> string" where
  "py_strip s = strip_where is_space s"

definition strip_hyphens :: "string \<Rightarrow> string" where
  "strip_hyphens s = strip_where (\<lambda>c. c = CHR ''-'') s"

text \<open>
  \<open>re.sub(r'[class]+', '-', s)\<close>: scanning from the left, every maximal run of
  characters of the class is replaced by one hyphen.
\<close>

function re_sub_runs :: "(char \<Rightarrow> bool) \<Rightarrow> string \<Rightarrow> string" where
  "re_sub_runs p [] = []"
| "re_sub_runs p (c # cs) =
     (if p c then CHR ''-'' # re_sub_runs p (dropWhile p cs) else c # re_sub_runs p cs)"
  by pat_completeness auto
termination
  by (relation "measure (\<lambda>(p, s). length s)") (auto simp: le_imp_less_Suc length_dropWhile_le)

subsection \<open>\<open>models.slugify\<close>: the slug of a tag\<close>

text \<open>
  \<^verbatim>\<open>
  def slugify(text):
      if not text:
          return ""
      slug = re.sub(r'[^a-zA-Z0-9]+', '-', text.lower().strip())
      slug = slug.strip('-')
      return slug[:50]
  \<close>
  The argument is \<open>None\<close> when the text is missing.
\<close>

definition slugify :: "string option \<Rightarrow> string" where
  "slugify text =
     (case text of
        None \<Rightarrow> []
      | Some t \<Rightarrow>
          if t = [] then []
          else take 50 (strip_hyphens
                 (re_sub_runs (\<lambda>c. \<not> is_ascii_alnum c) (py_strip (py_lower t)))))"

subsection \<open>\<open>utils.slugify\<close>: the slug of a profile or category name\<close>

text \<open>
  \<^verbatim>\<open>
  def slugify(text):
      text = unicodedata.normalize('NFKD', text)
      text = text.encode('ascii', 'ignore').decode('ascii')
      text = re.sub(r'[^\w\s-]', '', text).strip().lower()
      text = re.sub(r'[-\s]+', '-', text)
      return text
  \<close>
  The first two lines decompose every character (NFKD) and then drop what is not ASCII:
  ASCII text stays as it is, an accented letter leaves its base letter, a fraction its
  digits, the no-break space a space.  \<open>latin1_ascii\<close> lists what the two lines leave of
  each code point from 128 to 255 (Unicode character database); a code point that is not
  listed leaves nothing.  After that step \<open>\w\<close> is \<open>[a-zA-Z0-9_]\<close>.
\<close>

definition latin1_ascii :: "(nat \<times> string) list" where
  "latin1_ascii =
     [(160, '' ''), (168, '' ''), (170, ''a''), (175, '' ''), (178, ''2''), (179, ''3''),
      (180, '' ''), (184, '' ''), (185, ''1''), (186, ''o''), (188, ''14''), (189, ''12''),
      (190, ''34''),
      (192, ''A''), (193, ''A''), (194, ''A''), (195, ''A''), (196, ''A''), (197, ''A''),
      (199, ''C''), (200, ''E''), (201, ''E''), (202, ''E''), (203, ''E''),
      (204, ''I''), (205, ''I''), (206, ''I''), (207, ''I''), (209, ''N''),
      (210, ''O''), (211, ''O''), (212, ''O''), (213, ''O''), (214, ''O''),
      (217, ''U''), (218, ''U''), (219, ''U''), (220, ''U''), (221, ''Y''),
      (224, ''a''), (225, ''a''), (226, ''a''), (227, ''a''), (228, ''a''), (229, ''a''),
      (231, ''c''), (232, ''e''), (233, ''e''), (234, ''e''), (235, ''e''),
      (236, ''i''), (237, ''i''), (238, ''i''), (239, ''i''), (241, ''n''),
      (242, ''o''), (243, ''o''), (244, ''o''), (245, ''o''), (246, ''o''),
      (249, ''u''), (250, ''u''), (251, ''u''), (252, ''u''), (253, ''y''), (255, ''y'')]"

definition nfkd_ascii :: "char \<Rightarrow> string" where
  "nfkd_ascii c =
     (if codepoint c < 128 then [c]
      else (case map_of latin1_ascii (codepoint c) of None \<Rightarrow> [] | Some t \<Rightarrow> t))"

definition ascii_fold :: "string \<Rightarrow> string" where
  "ascii_fold s = concat (map nfkd_ascii s)"

definition is_word :: "char \<Rightarrow> bool" where
  "is_word c = (is_ascii_alnum c \<or> c = CHR ''_'')"

definition utils_slugify :: "string \<Rightarrow> string" where
  "utils_slugify text =
     re_sub_runs (\<lambda>c. c = CHR ''-'' \<or> is_space c)
       (py_lower (py_strip
          (filter (\<lambda>c. is_word c \<or> is_space c \<or> c = CHR ''-'') (ascii_fold text))))"

subsection \<open>Slugs\<close>

text \<open>A normalized slug: lowercase ASCII letters, digits and hyphens, at most 50
  characters.\<close>

definition is_slug_char :: "char \<Rightarrow> bool" where
  "is_slug_char c =
     ((97 \<le> codepoint c \<and> codepoint c \<le> 122) \<or> (48 \<le> codepoint c \<and> codepoint c \<le> 57) \<or>
      c = CHR ''-'')"

definition is_slug :: "string \<Rightarrow> bool" where
  "is_slug s = (list_all is_slug_char s \<and> length s \<le> 50)"

text \<open>A name made of ASCII letters, digits, white space and hyphens only.\<close>

definition plain_name :: "string \<Rightarrow> bool" where
  "plain_name t = list_all (\<lambda>c. codepoint c < 128 \<and> (is_ascii_alnum c \<or> is_space c \<or> c = CHR ''-'')) t"

section \<open>The tags of a recommendation\<close>

text \<open>
  \<open>Recommendation.tags\<close> is an optional JSON object, in Python a \<open>dict\<close> from a key to
  a list of slugs: \<open>{"categories": ["food"], "collections": ["sayulita"]}\<close>.  A
  recommendation row keeps the columns the tag code and the queries read.
\<close>

type_synonym tags = "string \<rightharpoonup> string list"

record recommendation =
  r_id :: nat
  r_title :: string
  r_tags :: "tags option"
  r_created_at :: int
  r_category_id :: nat

text \<open>\<open>not self.tags\<close>: the column is \<open>None\<close> or the empty dict.\<close>

definition no_tags :: "tags option \<Rightarrow> bool" where
  "no_tags t = (case t of None \<Rightarrow> True | Some m \<Rightarrow> m = Map.empty)"

text \<open>\<open>self.tags.get(key, [])\<close>.\<close>

definition tags_get :: "tags \<Rightarrow> string \<Rightarrow> string list" where
  "tags_get m k = (case m k of None \<Rightarrow> [] | Some v \<Rightarrow> v)"

text \<open>
  \<^verbatim>\<open>
  def get_tags(self):
      if not self.tags:
          return []
      tags = []
      if 'categories' in self.tags:
          tags.extend(self.tags['categories'])
      if 'collections' in self.tags:
          tags.extend(self.tags['collections'])
      return tags
  \<close>
\<close>

definition get_tags :: "recommendation \<Rightarrow> string list" where
  "get_tags r =
     (case r_tags r of
        None \<Rightarrow> []
      | Some m \<Rightarrow>
          if m = Map.empty then []
          else (case m ''categories'' of None \<Rightarrow> [] | Some v \<Rightarrow> v) @
               (case m ''collections'' of None \<Rightarrow> [] | Some v \<Rightarrow> v))"

text \<open>
  \<^verbatim>\<open>
  def add_tag(self, tag_name, tag_type='collection'):
      if not self.tags:
          self.tags = {'categories': [], 'collections': []}
      tag_slug = slugify(tag_name)
      if tag_type == 'category':
          if tag_slug not in self.tags.get('categories', []):
              if 'categories' not in self.tags:
                  self.tags['categories'] = []
              self.tags['categories'].append(tag_slug)
      else:
          if tag_slug not in self.tags.get('collections', []):
              if 'collections' not in self.tags:
                  self.tags['collections'] = []
              self.tags['collections'].append(tag_slug)
      self.tags = self.tags.copy()
  \<close>
\<close>

definition add_tag :: "recommendation \<Rightarrow> string \<Rightarrow> string \<Rightarrow> recommendation" where
  "add_tag r tag_name tag_type =
     (let m = (if no_tags (r_tags r)
               then [''categories'' \<mapsto> [], ''collections'' \<mapsto> []]
               else (case r_tags r of Some m0 \<Rightarrow> m0 | None \<Rightarrow> Map.empty));
          tag_slug = slugify (Some tag_name);
          m' = (if tag_type = ''category''
                then (if tag_slug \<notin> set (tags_get m ''categories'')
                      then m(''categories'' \<mapsto> tags_get m ''categories'' @ [tag_slug])
                      else m)
                else (if tag_slug \<notin> set (tags_get m ''collections'')
                      then m(''collections'' \<mapsto> tags_get m ''collections'' @ [tag_slug])
                      else m))
      in r\<lparr>r_tags := Some m'\<rparr>)"

text \<open>\<open>s.split(',')\<close>: the pieces between the separators; the empty string gives one
  empty piece.\<close>

fun py_split :: "char \<Rightarrow> string \<Rightarrow> string list" where
  "py_split sep [] = [[]]"
| "py_split sep (c # cs) =
     (if c = sep then [] # py_split sep cs
      else (case py_split sep cs of
              [] \<Rightarrow> [[c]]
            | w # ws \<Rightarrow> (c # w) # ws))"

text \<open>\<open>[tag.strip() for tag in text.split(',') if tag.strip()]\<close>.\<close>

definition split_tags :: "string \<Rightarrow> string list" where
  "split_tags text = filter (\<lambda>t. t \<noteq> []) (map py_strip (py_split CHR '','' text))"

text \<open>
  The tag fields of the creation form and of the edit form (\<open>new_recommendation\<close>,
  \<open>edit_recommendation\<close>); an empty field is falsy, as a missing one.
  \<^verbatim>\<open>
  tags_data = {}
  if form.category_tags.data:
      category_tags = [tag.strip() for tag in form.category_tags.data.split(',') if tag.strip()]
      if category_tags:
          tags_data['categories'] = [slugify(tag) for tag in category_tags]
  if form.collection_tags.data:
      collection_tags = [tag.strip() for tag in form.collection_tags.data.split(',') if tag.strip()]
      if collection_tags:
          tags_data['collections'] = [slugify(tag) for tag in collection_tags]
  recommendation.tags = tags_data if tags_data else {}
  \<close>
\<close>

definition form_tags :: "string \<Rightarrow> string \<Rightarrow> tags option" where
  "form_tags category_tags_field collection_tags_field =
     (let d0 = Map.empty;
          d1 = (if category_tags_field \<noteq> [] \<and> split_tags category_tags_field \<noteq> []
                then d0(''categories'' \<mapsto> map (\<lambda>t. slugify (Some t)) (split_tags category_tags_field))
                else d0);
          d2 = (if collection_tags_field \<noteq> [] \<and> split_tags collection_tags_field \<noteq> []
                then d1(''collections'' \<mapsto> map (\<lambda>t. slugify (Some t)) (split_tags collection_tags_field))
                else d1)
      in Some d2)"

text \<open>
  The body of \<open>PUT /api/recommendations/<id>/tags\<close> once the recommendation is found and
  owned by the caller; the two arguments are \<open>data.get('categories', [])\<close> and
  \<open>data.get('collections', [])\<close>, lists of strings.
  \<^verbatim>\<open>
  new_tags = {}
  if categories:
      new_tags['categories'] = [slugify(cat) for cat in categories if cat.strip()]
  if collections:
      new_tags['collections'] = [slugify(col) for col in collections if col.strip()]
  rec.tags = new_tags if new_tags else None
  \<close>
\<close>

definition put_tags :: "string list \<Rightarrow> string list \<Rightarrow> tags option" where
  "put_tags cats cols =
     (let d0 = Map.empty;
          d1 = (if cats \<noteq> []
                then d0(''categories'' \<mapsto> map (\<lambda>t. slugify (Some t)) (filter (\<lambda>t. py_strip t \<noteq> []) cats))
                else d0);
          d2 = (if cols \<noteq> []
                then d1(''collections'' \<mapsto> map (\<lambda>t. slugify (Some t)) (filter (\<lambda>t. py_strip t \<noteq> []) cols))
                else d1)
      in if d2 \<noteq> Map.empty then Some d2 else None)"

text \<open>The key of the list that \<open>add_tag\<close> writes for a tag type.\<close>

definition tag_key :: "string \<Rightarrow> string" where
  "tag_key tag_type = (if tag_type = ''category'' then ''categories'' else ''collections'')"

text \<open>The invariant of the spec on a stored tags value: only the two keys, and under each
  key a list of normalized slugs without duplicates.\<close>

definition normal_tags :: "tags option \<Rightarrow> bool" where
  "normal_tags t =
     (case t of
        None \<Rightarrow> True
      | Some m \<Rightarrow>
          dom m \<subseteq> {''categories'', ''collections''} \<and>
          (\<forall>k xs. m k = Some xs \<longrightarrow> list_all is_slug xs \<and> distinct xs))"

section \<open>The database, the session and the responses\<close>

text \<open>
  One record per table of \<open>models.py\<close>, with the columns that the handlers below read or
  write; a profile has all its columns but the time stamps, because \<open>dashboard_profile\<close>
  writes them all.  A table is the list of its rows in insertion order.  A text column
  whose value the handler takes from an optional form field is an \<open>option\<close>: \<open>None\<close> is
  the Python \<open>None\<close>, which the session sends to the database as \<open>NULL\<close>.
\<close>

record user =
  u_id :: nat
  u_username :: string
  u_email :: string
  u_password_hash :: string
  u_is_admin :: bool
  u_is_verified :: bool

record profile =
  p_id :: nat
  p_name :: string
  p_bio :: "string option"
  p_slug :: string
  p_is_public :: bool
  p_profile_image :: "string option"
  p_instagram_handle :: "string option"
  p_tiktok_handle :: "string option"
  p_country :: "string option"
  p_city :: "string option"
  p_user_id :: nat

record category =
  c_id :: nat
  c_name :: string
  c_description :: string
  c_slug :: string
  c_profile_id :: nat

record follow =
  f_id :: nat
  f_follower_id :: nat
  f_followed_id :: nat

record like_row =
  l_id :: nat
  l_user_id :: nat
  l_recommendation_id :: nat

record comment =
  cm_id :: nat
  cm_content :: string
  cm_user_id :: nat
  cm_recommendation_id :: nat

record database =
  users :: "user list"
  profiles :: "profile list"
  categories :: "category list"
  recommendations :: "recommendation list"
  follows :: "follow list"
  likes :: "like_row list"
  comments :: "comment list"

text \<open>The primary key of a new row: the sequence hands out a number above every id of
  the table.\<close>

definition next_id :: "nat list \<Rightarrow> nat" where
  "next_id ids = Suc (fold max ids 0)"

text \<open>
  The unique constraints of \<open>models.py\<close>: \<open>users.username\<close>, \<open>users.email\<close>,
  \<open>profiles.slug\<close>, \<open>unique_category_slug_per_profile\<close>, \<open>unique_follow\<close> and
  \<open>unique_like\<close>.
\<close>

definition unique_constraints :: "database \<Rightarrow> bool" where
  "unique_constraints db =
     (distinct (map u_username (users db)) \<and>
      distinct (map u_email (users db)) \<and>
      distinct (map p_slug (profiles db)) \<and>
      distinct (map (\<lambda>c. (c_profile_id c, c_slug c)) (categories db)) \<and>
      distinct (map (\<lambda>f. (f_follower_id f, f_followed_id f)) (follows db)) \<and>
      distinct (map (\<lambda>l. (l_user_id l, l_recommendation_id l)) (likes db)))"














text \<open>
  \<open>db.session.commit()\<close> of a unit of work whose rows have passed their column
  constraints (a follow and a like have integer columns only, a delete writes no row, and
  the handlers that write a user, a profile or a category check the row first, with the
  functions above): what is left to refuse the transaction are the unique constraints.
  They are checked on the new state; when one is broken the database raises
  \<open>IntegrityError\<close> and keeps the old state.
\<close>

definition commit :: "database \<Rightarrow> database option" where
  "commit db' = (if unique_constraints db' then Some db' else None)"

text \<open>
  The session cookie: the id of the logged-in user and, between registration and
  verification, the pending registration.
\<close>

record pending_user =
  pu_username :: string
  pu_email :: string
  pu_password_hash :: string
  pu_verification_code :: string
  pu_expires_at :: int

record session =
  s_user_id :: "nat option"
  s_pending_user :: "pending_user option"

text \<open>
  What a handler answers: a redirect to an endpoint, a rendered template, a JSON body
  (here the \<open>action\<close> field), \<open>abort(status)\<close>, or an exception that no handler
  catches (HTTP 500).
\<close>

datatype response =
    Redirect string
  | Render string
  | Json string
  | Abort nat
  | Unhandled string

type_synonym outcome = "response \<times> session \<times> database"

text \<open>\<open>Model.query.get(id)\<close> for the tables that are looked up by primary key.\<close>

definition get_user :: "database \<Rightarrow> nat \<Rightarrow> user option" where
  "get_user db uid = find (\<lambda>u. u_id u = uid) (users db)"

definition get_category :: "database \<Rightarrow> nat \<Rightarrow> category option" where
  "get_category db cid = find (\<lambda>c. c_id c = cid) (categories db)"

definition get_profile :: "database \<Rightarrow> nat \<Rightarrow> profile option" where
  "get_profile db pid = find (\<lambda>p. p_id p = pid) (profiles db)"

text \<open>
  The chain \<open>Profile.query.filter_by(slug=profile_slug, is_public=True).first_or_404()\<close>,
  \<open>Category.query.filter_by(profile_id=profile.id, slug=category_slug).first_or_404()\<close>,
  \<open>Recommendation.query.filter_by(id=rec_id, category_id=category.id).first_or_404()\<close>
  that opens the public handlers; \<open>None\<close> is the 404.
\<close>

definition public_recommendation ::
  "database \<Rightarrow> string \<Rightarrow> string \<Rightarrow> nat \<Rightarrow> recommendation option" where
  "public_recommendation db profile_slug category_slug rec_id =
     (case find (\<lambda>p. p_slug p = profile_slug \<and> p_is_public p) (profiles db) of
        None \<Rightarrow> None
      | Some p \<Rightarrow>
          (case find (\<lambda>c. c_profile_id c = p_id p \<and> c_slug c = category_slug) (categories db) of
             None \<Rightarrow> None
           | Some c \<Rightarrow>
               find (\<lambda>r. r_id r = rec_id \<and> r_category_id r = c_id c) (recommendations db)))"

text \<open>\<open>recommendation.category.profile.user_id\<close>; \<open>None\<close> when a link of the chain is
  missing (Python raises \<open>AttributeError\<close> there).\<close>

definition owner_of :: "database \<Rightarrow> recommendation \<Rightarrow> nat option" where
  "owner_of db r =
     (case get_category db (r_category_id r) of
        None \<Rightarrow> None
      | Some c \<Rightarrow>
          (case get_profile db (c_profile_id c) of
             None \<Rightarrow> None
           | Some p \<Rightarrow> Some (p_user_id p)))"

section \<open>Follows, likes and comments\<close>

text \<open>
  \<^verbatim>\<open>
  @login_required
  def follow_user(user_id):
      current_user = User.query.get(session['user_id'])
      user_to_follow = User.query.get_or_404(user_id)
      if current_user.is_following(user_to_follow):
          flash('You are already following this user.', 'info')
          return redirect(request.referrer or url_for('index'))
      follow = Follow(follower_id=current_user.id, followed_id=user_to_follow.id)
      db.session.add(follow)
      db.session.commit()
      ...
      return redirect(request.referrer or url_for('index'))
  \<close>
  with \<open>is_following\<close> of \<open>models.py\<close>:
  \<open>Follow.query.filter_by(follower_id=self.id, followed_id=user.id).first() is not None\<close>.

  \<open>referrer\<close> is the \<open>Referer\<close> header of the request, \<open>None\<close> when the request has none.
  No route of the application has the endpoint name \<open>index\<close> (the home page is the
  endpoint \<open>home\<close>), so \<open>url_for('index')\<close> raises \<open>BuildError\<close>; Python evaluates it only
  when the referrer is \<open>None\<close> or empty.  In the second branch the follow is committed
  before the redirect is built.
\<close>

definition is_following :: "database \<Rightarrow> user \<Rightarrow> user \<Rightarrow> bool" where
  "is_following db u v =
     (find (\<lambda>f. f_follower_id f = u_id u \<and> f_followed_id f = u_id v) (follows db) \<noteq> None)"

definition redirect_back :: "string option \<Rightarrow> response" where
  "redirect_back referrer =
     (case referrer of
        None \<Rightarrow> Unhandled ''BuildError''
      | Some url \<Rightarrow> if url = [] then Unhandled ''BuildError'' else Redirect url)"

definition follow_user :: "session \<Rightarrow> string option \<Rightarrow> nat \<Rightarrow> database \<Rightarrow> outcome" where
  "follow_user sess referrer user_id db =
     (case s_user_id sess of
        None \<Rightarrow> (Redirect ''login'', sess, db)
      | Some uid \<Rightarrow>
          (case get_user db user_id of
             None \<Rightarrow> (Abort 404, sess, db)
           | Some user_to_follow \<Rightarrow>
               (case get_user db uid of
                  None \<Rightarrow> (Unhandled ''AttributeError'', sess, db)
                | Some current_user \<Rightarrow>
                    if is_following db current_user user_to_follow
                    then (redirect_back referrer, sess, db)
                    else
                      (case commit (db\<lparr>follows := follows db @
                               [\<lparr>f_id = next_id (map f_id (follows db)),
                                 f_follower_id = u_id current_user,
                                 f_followed_id = u_id user_to_follow\<rparr>]\<rparr>) of
                         None \<Rightarrow> (Unhandled ''IntegrityError'', sess, db)
                       | Some db' \<Rightarrow> (redirect_back referrer, sess, db')))))"

text \<open>
  \<^verbatim>\<open>
  @login_required
  def like_recommendation(profile_slug, category_slug, rec_id):
      """Like/unlike a recommendation"""
      profile = ...first_or_404(); category = ...first_or_404()
      recommendation = ...first_or_404()
      user = User.query.get(session['user_id'])
      existing_like = Like.query.filter_by(user_id=user.id,
                                           recommendation_id=recommendation.id).first()
      if existing_like:
          db.session.delete(existing_like)
          action = 'unliked'
      else:
          like = Like(user_id=user.id, recommendation_id=recommendation.id)
          db.session.add(like)
          action = 'liked'
      db.session.commit()
      if request.method == 'POST':
          return jsonify({'success': True, 'action': action, ...})
  \<close>
  The route accepts \<open>POST\<close> only.
\<close>

definition like_recommendation ::
  "session \<Rightarrow> string \<Rightarrow> string \<Rightarrow> nat \<Rightarrow> database \<Rightarrow> outcome" where
  "like_recommendation sess profile_slug category_slug rec_id db =
     (case s_user_id sess of
        None \<Rightarrow> (Redirect ''login'', sess, db)
      | Some uid \<Rightarrow>
          (case public_recommendation db profile_slug category_slug rec_id of
             None \<Rightarrow> (Abort 404, sess, db)
           | Some r \<Rightarrow>
               (case get_user db uid of
                  None \<Rightarrow> (Unhandled ''AttributeError'', sess, db)
                | Some u \<Rightarrow>
                    (case find (\<lambda>l. l_user_id l = u_id u \<and> l_recommendation_id l = r_id r)
                            (likes db) of
                       Some existing_like \<Rightarrow>
                         (case commit (db\<lparr>likes := filter (\<lambda>l. l_id l \<noteq> l_id existing_like)
                                                   (likes db)\<rparr>) of
                            None \<Rightarrow> (Unhandled ''IntegrityError'', sess, db)
                          | Some db' \<Rightarrow> (Json ''unliked'', sess, db'))
                     | None \<Rightarrow>
                         (case commit (db\<lparr>likes := likes db @
                                  [\<lparr>l_id = next_id (map l_id (likes db)),
                                    l_user_id = u_id u,
                                    l_recommendation_id = r_id r\<rparr>]\<rparr>) of
                            None \<Rightarrow> (Unhandled ''IntegrityError'', sess, db)
                          | Some db' \<Rightarrow> (Json ''liked'', sess, db'))))))"

text \<open>
  \<^verbatim>\<open>
  @login_required
  def delete_comment(profile_slug, category_slug, rec_id, comment_id):
      """Delete a comment (only by the comment author or recommendation owner)"""
      profile = ...first_or_404(); category = ...first_or_404()
      recommendation = ...first_or_404()
      comment = Comment.query.filter_by(id=comment_id,
                                        recommendation_id=recommendation.id).first_or_404()
      current_user = User.query.get(session['user_id'])
      if comment.user_id == current_user.id or \
         recommendation.category.profile.user_id == current_user.id:
          db.session.delete(comment)
          db.session.commit()
          flash('Comment deleted successfully!', 'success')
      else:
          flash('You can only delete your own comments.', 'error')
      return redirect(url_for('view_recommendation', ...))
  \<close>
  The flashed message tells the two redirects apart.
\<close>

definition delete_comment ::
  "session \<Rightarrow> string \<Rightarrow> string \<Rightarrow> nat \<Rightarrow> nat \<Rightarrow> database \<Rightarrow> outcome" where
  "delete_comment sess profile_slug category_slug rec_id comment_id db =
     (case s_user_id sess of
        None \<Rightarrow> (Redirect ''login'', sess, db)
      | Some uid \<Rightarrow>
          (case public_recommendation db profile_slug category_slug rec_id of
             None \<Rightarrow> (Abort 404, sess, db)
           | Some r \<Rightarrow>
               (case find (\<lambda>c. cm_id c = comment_id \<and> cm_recommendation_id c = r_id r)
                       (comments db) of
                  None \<Rightarrow> (Abort 404, sess, db)
                | Some cm \<Rightarrow>
                    (case get_user db uid of
                       None \<Rightarrow> (Unhandled ''AttributeError'', sess, db)
                     | Some current_user \<Rightarrow>
                         (let deleted =
                                (case commit (db\<lparr>comments := filter (\<lambda>c. cm_id c \<noteq> cm_id cm)
                                                             (comments db)\<rparr>) of
                                   None \<Rightarrow> (Unhandled ''IntegrityError'', sess, db)
                                 | Some db' \<Rightarrow>
                                     (Redirect ''view_recommendation: deleted'', sess, db'))
                          in if cm_user_id cm = u_id current_user then deleted
                             else
                               (case owner_of db r of
                                  None \<Rightarrow> (Unhandled ''AttributeError'', sess, db)
                                | Some owner \<Rightarrow>
                                    if owner = u_id current_user then deleted
                                    else (Redirect ''view_recommendation: refused'', sess, db)))))))"

text \<open>The pairs of the two edge tables, in row order.\<close>

definition follow_pairs :: "database \<Rightarrow> (nat \<times> nat) list" where
  "follow_pairs db = map (\<lambda>f. (f_follower_id f, f_followed_id f)) (follows db)"

definition like_pairs :: "database \<Rightarrow> (nat \<times> nat) list" where
  "like_pairs db = map (\<lambda>l. (l_user_id l, l_recommendation_id l)) (likes db)"

section \<open>Deleting categories and recommendations\<close>

text \<open>
  \<open>db.session.delete(obj)\<close> with the cascades declared in \<open>models.py\<close>:
  \<^verbatim>\<open>
  class Category:
      recommendations = relationship("Recommendation", back_populates="category",
                                     cascade="all, delete-orphan")
  class Recommendation:
      likes = relationship("Like", ..., cascade="all, delete-orphan")
      comments = relationship("Comment", ..., cascade="all, delete-orphan", ...)
  \<close>
  Deleting a parent deletes every object of the relationship, that is every row whose
  foreign key is the parent's id, and each row is deleted by its primary key.
\<close>

definition session_delete_like :: "like_row \<Rightarrow> database \<Rightarrow> database" where
  "session_delete_like l db = db\<lparr>likes := filter (\<lambda>x. l_id x \<noteq> l_id l) (likes db)\<rparr>"

definition session_delete_comment :: "comment \<Rightarrow> database \<Rightarrow> database" where
  "session_delete_comment c db = db\<lparr>comments := filter (\<lambda>x. cm_id x \<noteq> cm_id c) (comments db)\<rparr>"

definition session_delete_recommendation :: "recommendation \<Rightarrow> database \<Rightarrow> database" where
  "session_delete_recommendation r db =
     (let db1 = fold session_delete_like
                  (filter (\<lambda>l. l_recommendation_id l = r_id r) (likes db)) db;
          db2 = fold session_delete_comment
                  (filter (\<lambda>c. cm_recommendation_id c = r_id r) (comments db1)) db1
      in db2\<lparr>recommendations := filter (\<lambda>x. r_id x \<noteq> r_id r) (recommendations db2)\<rparr>)"

definition session_delete_category :: "category \<Rightarrow> database \<Rightarrow> database" where
  "session_delete_category c db =
     (let db1 = fold session_delete_recommendation
                  (filter (\<lambda>r. r_category_id r = c_id c) (recommendations db)) db
      in db1\<lparr>categories := filter (\<lambda>x. c_id x \<noteq> c_id c) (categories db1)\<rparr>)"

text \<open>
  \<^verbatim>\<open>
  @login_required
  def delete_category(category_id):
      user = User.query.get(session['user_id'])
      profile = Profile.query.filter_by(user_id=user.id).first()
      category = Category.query.filter_by(id=category_id,
                                          profile_id=profile.id).first_or_404()
      db.session.delete(category)
      db.session.commit()
      flash('Category deleted successfully!', 'success')
      return redirect(url_for('dashboard_categories'))
  \<close>
\<close>

definition delete_category :: "session \<Rightarrow> nat \<Rightarrow> database \<Rightarrow> outcome" where
  "delete_category sess category_id db =
     (case s_user_id sess of
        None \<Rightarrow> (Redirect ''login'', sess, db)
      | Some uid \<Rightarrow>
          (case get_user db uid of
             None \<Rightarrow> (Unhandled ''AttributeError'', sess, db)
           | Some user \<Rightarrow>
               (case find (\<lambda>p. p_user_id p = u_id user) (profiles db) of
                  None \<Rightarrow> (Unhandled ''AttributeError'', sess, db)
                | Some profile \<Rightarrow>
                    (case find (\<lambda>c. c_id c = category_id \<and> c_profile_id c = p_id profile)
                            (categories db) of
                       None \<Rightarrow> (Abort 404, sess, db)
                     | Some category \<Rightarrow>
                         (case commit (session_delete_category category db) of
                            None \<Rightarrow> (Unhandled ''IntegrityError'', sess, db)
                          | Some db' \<Rightarrow> (Redirect ''dashboard_categories'', sess, db'))))))"

text \<open>
  \<^verbatim>\<open>
  @login_required
  def delete_recommendation(rec_id):
      user = User.query.get(session['user_id'])
      profile = Profile.query.filter_by(user_id=user.id).first()
      recommendation = Recommendation.query.join(Category).filter(
          Recommendation.id == rec_id,
          Category.profile_id == profile.id
      ).first_or_404()
      db.session.delete(recommendation)
      db.session.commit()
      flash('Recommendation deleted successfully!', 'success')
      return redirect(url_for('dashboard_recommendations'))
  \<close>
\<close>

definition delete_recommendation :: "session \<Rightarrow> nat \<Rightarrow> database \<Rightarrow> outcome" where
  "delete_recommendation sess rec_id db =
     (case s_user_id sess of
        None \<Rightarrow> (Redirect ''login'', sess, db)
      | Some uid \<Rightarrow>
          (case get_user db uid of
             None \<Rightarrow> (Unhandled ''AttributeError'', sess, db)
           | Some user \<Rightarrow>
               (case find (\<lambda>p. p_user_id p = u_id user) (profiles db) of
                  None \<Rightarrow> (Unhandled ''AttributeError'', sess, db)
                | Some profile \<Rightarrow>
                    (case find (\<lambda>r. r_id r = rec_id \<and>
                                   list_ex (\<lambda>c. c_id c = r_category_id r \<and>
                                                 c_profile_id c = p_id profile) (categories db))
                            (recommendations db) of
                       None \<Rightarrow> (Abort 404, sess, db)
                     | Some recommendation \<Rightarrow>
                         (case commit (session_delete_recommendation recommendation db) of
                            None \<Rightarrow> (Unhandled ''IntegrityError'', sess, db)
                          | Some db' \<Rightarrow> (Redirect ''dashboard_recommendations'', sess, db'))))))"

text \<open>The primary keys of the tables that a cascade walks through.\<close>

definition primary_keys :: "database \<Rightarrow> bool" where
  "primary_keys db =
     (distinct (map r_id (recommendations db)) \<and>
      distinct (map l_id (likes db)) \<and>
      distinct (map cm_id (comments db)))"

text \<open>The rows that hang on a category: a like or a comment belongs to it when its
  recommendation does.\<close>

definition rec_in_category :: "database \<Rightarrow> nat \<Rightarrow> nat \<Rightarrow> bool" where
  "rec_in_category db cid rid =
     list_ex (\<lambda>r. r_id r = rid \<and> r_category_id r = cid) (recommendations db)"

section \<open>Filtering recommendations by tags\<close>

text \<open>
  The column is stored as JSON text, written by \<open>json.dumps\<close>:
  \<open>["smart-art", "food"]\<close> for a list of strings.  In a string the double quote and the
  backslash are escaped; the escapes of control characters and of characters outside
  ASCII are not part of the model (a slug has none of them).
\<close>

definition dquote :: char where
  "dquote = CHR 0x22"

definition json_escape_char :: "char \<Rightarrow> string" where
  "json_escape_char c =
     (if c = dquote then [CHR 0x5C, dquote]
      else if c = CHR 0x5C then [CHR 0x5C, CHR 0x5C]
      else [c])"

definition json_string :: "string \<Rightarrow> string" where
  "json_string s = dquote # concat (map json_escape_char s) @ [dquote]"

text \<open>\<open>sep.join(parts)\<close>.\<close>

fun py_join :: "string \<Rightarrow> string list \<Rightarrow> string" where
  "py_join sep [] = []"
| "py_join sep [x] = x"
| "py_join sep (x # y # ys) = x @ sep @ py_join sep (y # ys)"

definition json_list :: "string list \<Rightarrow> string" where
  "json_list xs = ''['' @ py_join '', '' (map json_string xs) @ '']''"

text \<open>
  \<open>Recommendation.tags.op('->>')(key)\<close>: the value under the key as text; \<open>NULL\<close> (here
  \<open>None\<close>) when the column is null or the object has no such key.
\<close>

definition json_field_text :: "tags option \<Rightarrow> string \<Rightarrow> string option" where
  "json_field_text t k =
     (case t of
        None \<Rightarrow> None
      | Some m \<Rightarrow> (case m k of None \<Rightarrow> None | Some xs \<Rightarrow> Some (json_list xs)))"

text \<open>
  \<open>text LIKE '%needle%'\<close> for a needle without the wildcards \<open>%\<close> and \<open>_\<close>: the needle
  occurs in the text.  A \<open>NULL\<close> text gives \<open>NULL\<close>, and a row whose condition is \<open>NULL\<close> is
  not selected.
\<close>

definition sql_like_contains :: "string option \<Rightarrow> string \<Rightarrow> bool" where
  "sql_like_contains text needle =
     (case text of None \<Rightarrow> False | Some t \<Rightarrow> sublist needle t)"

text \<open>
  One condition of the query:
  \<^verbatim>\<open>
  or_(Recommendation.tags.op('->>')('categories').like(f'%"{tag_slug}"%'),
      Recommendation.tags.op('->>')('collections').like(f'%"{tag_slug}"%'))
  \<close>
\<close>

definition tag_condition :: "recommendation \<Rightarrow> string \<Rightarrow> bool" where
  "tag_condition r tag_slug =
     (sql_like_contains (json_field_text (r_tags r) ''categories'')
        (dquote # tag_slug @ [dquote]) \<or>
      sql_like_contains (json_field_text (r_tags r) ''collections'')
        (dquote # tag_slug @ [dquote]))"

text \<open>
  \<open>db.session.query(Recommendation).join(Category).join(Profile).filter(...)\<close>: the
  recommendation has a category with a profile that is public or, for a logged-in user
  (\<open>if user_id:\<close>), owned by that user.
\<close>

definition visible_to :: "nat option \<Rightarrow> database \<Rightarrow> recommendation \<Rightarrow> bool" where
  "visible_to user_id db r =
     list_ex (\<lambda>c. c_id c = r_category_id r \<and>
                list_ex (\<lambda>p. p_id p = c_profile_id c \<and>
                           (p_is_public p \<or>
                            (case user_id of
                               None \<Rightarrow> False
                             | Some u \<Rightarrow> u \<noteq> 0 \<and> p_user_id p = u)))
                  (profiles db))
       (categories db)"

text \<open>
  \<^verbatim>\<open>
  def get_recommendations_by_tags():
      tags_param = request.args.get('tags', '')
      user_id = session.get('user_id')
      if tags_param:
          tag_list = [tag.strip() for tag in tags_param.split(',') if tag.strip()]
      else:
          tag_list = []
      ...
      if tag_list:
          conditions = []
          for tag in tag_list:
              tag_slug = slugify(tag)
              conditions.append(or_(...))
          if conditions:
              query = query.filter(and_(*conditions))
      recommendations = query.order_by(Recommendation.created_at.desc()).limit(50).all()
  \<close>
  \<open>selected_rows\<close> are the rows of the query before the ordering and the limit.  Rows with
  the same \<open>created_at\<close> come in an order that the database chooses; the model keeps
  their table order.
\<close>

definition parse_tags_param :: "string \<Rightarrow> string list" where
  "parse_tags_param tags_param = (if tags_param \<noteq> [] then split_tags tags_param else [])"

definition selected_rows :: "nat option \<Rightarrow> string \<Rightarrow> database \<Rightarrow> recommendation list" where
  "selected_rows user_id tags_param db =
     filter (\<lambda>r. visible_to user_id db r \<and>
                 list_all (\<lambda>tag. tag_condition r (slugify (Some tag)))
                   (parse_tags_param tags_param))
       (recommendations db)"

definition get_recommendations_by_tags ::
  "nat option \<Rightarrow> string \<Rightarrow> database \<Rightarrow> recommendation list" where
  "get_recommendations_by_tags user_id tags_param db =
     take 50 (sort_key (\<lambda>r. - r_created_at r) (selected_rows user_id tags_param db))"

text \<open>The tag lists of a recommendation hold slug text only, as every writer of the
  column leaves them.\<close>

definition stored_slugs :: "recommendation \<Rightarrow> bool" where
  "stored_slugs r =
     (case r_tags r of
        None \<Rightarrow> True
      | Some m \<Rightarrow>
          list_all (list_all is_slug_char) (tags_get m ''categories'') \<and>
          list_all (list_all is_slug_char) (tags_get m ''collections''))"

text \<open>The text of a list after its opening bracket.\<close>

definition rest_of_list :: "string list \<Rightarrow> string" where
  "rest_of_list xs = py_join '', '' (map json_string xs) @ '']''"

section \<open>Creating a profile: the slug with a numeric suffix\<close>
























section \<open>Registration with a verification code\<close>











section \<open>A small database\<close>

text \<open>
  Three users.  Alice (1) has the public profile \<open>alice\<close> with the category \<open>books\<close> and
  one recommendation tagged \<open>smart-art\<close>; Bob (2) has the private profile \<open>bob\<close> with the
  category \<open>food\<close> and one recommendation; Carol (3) has no profile.  Alice follows Bob
  and likes her own recommendation; Carol likes Bob's recommendation and has commented
  on both.
\<close>

definition example_db :: database where
  "example_db =
     \<lparr>users =
        [\<lparr>u_id = 1, u_username = ''alice'', u_email = ''alice@example.org'',
          u_password_hash = ''h1'', u_is_admin = False, u_is_verified = True\<rparr>,
         \<lparr>u_id = 2, u_username = ''bob'', u_email = ''bob@example.org'',
          u_password_hash = ''h2'', u_is_admin = False, u_is_verified = True\<rparr>,
         \<lparr>u_id = 3, u_username = ''carol'', u_email = ''carol@example.org'',
          u_password_hash = ''h3'', u_is_admin = False, u_is_verified = True\<rparr>],
      profiles =
        [\<lparr>p_id = 1, p_name = ''Alice'', p_bio = Some [], p_slug = ''alice'',
          p_is_public = True, p_profile_image = Some ''data:image/png;base64,QQ=='',
          p_instagram_handle = Some ''alice.reads'', p_tiktok_handle = Some [],
          p_country = Some ''Mexico'', p_city = Some ''Sayulita'', p_user_id = 1\<rparr>,
         \<lparr>p_id = 2, p_name = ''Bob'', p_bio = Some [], p_slug = ''bob'',
          p_is_public = False, p_profile_image = Some ''data:image/png;base64,Qg=='',
          p_instagram_handle = Some [], p_tiktok_handle = Some [],
          p_country = Some [], p_city = Some [], p_user_id = 2\<rparr>],
      categories =
        [\<lparr>c_id = 1, c_name = ''Books'', c_description = [], c_slug = ''books'',
          c_profile_id = 1\<rparr>,
         \<lparr>c_id = 2, c_name = ''Food'', c_description = [], c_slug = ''food'',
          c_profile_id = 2\<rparr>],
      recommendations =
        [\<lparr>r_id = 1, r_title = ''Ways of Seeing'',
          r_tags = Some [''collections'' \<mapsto> [''smart-art'']],
          r_created_at = 100, r_category_id = 1\<rparr>,
         \<lparr>r_id = 2, r_title = ''Tacos'', r_tags = None,
          r_created_at = 200, r_category_id = 2\<rparr>],
      follows = [\<lparr>f_id = 1, f_follower_id = 1, f_followed_id = 2\<rparr>],
      likes =
        [\<lparr>l_id = 1, l_user_id = 1, l_recommendation_id = 1\<rparr>,
         \<lparr>l_id = 2, l_user_id = 3, l_recommendation_id = 2\<rparr>],
      comments =
        [\<lparr>cm_id = 1, cm_content = ''Great'', cm_user_id = 3, cm_recommendation_id = 1\<rparr>,
         \<lparr>cm_id = 2, cm_content = ''Yum'', cm_user_id = 3, cm_recommendation_id = 2\<rparr>]\<rparr>"

definition session_of :: "nat \<Rightarrow> session" where
  "session_of uid = \<lparr>s_user_id = Some uid, s_pending_user = None\<rparr>"









text \<open>Alice's recommendation, the first row of its table.\<close>

definition smart_art_rec :: recommendation where
  "smart_art_rec =
     \<lparr>r_id = 1, r_title = ''Ways of Seeing'',
      r_tags = Some [''collections'' \<mapsto> [''smart-art'']],
      r_created_at = 100, r_category_id = 1\<rparr>"

section \<open>Properties of the slug functions\<close>

subsection \<open>Runs, stripping and lowercase\<close>

lemma re_sub_runs_split:
  "\<not> p c \<Longrightarrow> re_sub_runs p (xs @ c # ys) = re_sub_runs p xs @ c # re_sub_runs p ys"
proof (induction p xs rule: re_sub_runs.induct)
  case (1 p)
  then show ?case by simp
next
  case (2 p x xs)
  have "dropWhile p (xs @ c # ys) = dropWhile p xs @ c # ys"
    using 2(3) by (induction xs) auto
  with 2 show ?case by simp
qed

lemma re_sub_runs_all:
  "\<forall>c\<in>set ys. p c \<Longrightarrow> re_sub_runs p ys = (if ys = [] then [] else ''-'')"
proof (cases ys)
  case Nil
  then show ?thesis by simp
next
  case (Cons a list)
  assume all: "\<forall>c\<in>set ys. p c"
  with Cons have "dropWhile p list = []" by simp
  with Cons all show ?thesis by (simp del: dropWhile_eq_Nil_conv)
qed

lemma re_sub_runs_no_leading_hyphen:
  assumes "p (CHR ''-'')"
  shows "dropWhile (\<lambda>c. c = CHR ''-'') (re_sub_runs p (dropWhile p t)) =
         re_sub_runs p (dropWhile p t)"
proof (cases "dropWhile p t")
  case Nil
  show ?thesis unfolding Nil by simp
next
  case (Cons d ds)
  then have "\<not> p d" using hd_dropWhile[of p t] by auto
  with assms have "d \<noteq> CHR ''-''" by auto
  with \<open>\<not> p d\<close> show ?thesis unfolding Cons by simp
qed

lemma re_sub_runs_dropWhile_hy:
  assumes "p (CHR ''-'')"
  shows "dropWhile (\<lambda>c. c = CHR ''-'') (re_sub_runs p s) = re_sub_runs p (dropWhile p s)"
proof (cases s)
  case Nil
  then show ?thesis by simp
next
  case (Cons c cs)
  show ?thesis
  proof (cases "p c")
    case True
    with Cons re_sub_runs_no_leading_hyphen[of p cs] assms show ?thesis by simp
  next
    case False
    with Cons assms show ?thesis by auto
  qed
qed

lemma re_sub_runs_dropWhile_hy_rev:
  assumes "p (CHR ''-'')"
  shows "rev (dropWhile (\<lambda>c. c = CHR ''-'') (rev (re_sub_runs p t))) =
         re_sub_runs p (rev (dropWhile p (rev t)))"
proof -
  define xs where "xs = rev (dropWhile p (rev t))"
  define ys where "ys = rev (takeWhile p (rev t))"
  have t: "t = xs @ ys"
    unfolding xs_def ys_def by (metis rev_append rev_rev_ident takeWhile_dropWhile_id)
  have ysP: "\<forall>c\<in>set ys. p c"
    unfolding ys_def by (auto dest: set_takeWhileD)
  show ?thesis
  proof (cases xs rule: rev_cases)
    case Nil
    with t ysP have "re_sub_runs p t = (if t = [] then [] else ''-'')"
      by (simp add: re_sub_runs_all)
    with Nil show ?thesis unfolding xs_def[symmetric] by simp
  next
    case (snoc xs' c)
    have "xs \<noteq> []" using snoc by simp
    then have "\<not> p (last xs)"
      unfolding xs_def using hd_dropWhile[of p "rev t"] by (simp add: last_rev)
    with snoc have npc: "\<not> p c" by simp
    then have c: "c \<noteq> CHR ''-''" using assms by auto
    have "re_sub_runs p t = re_sub_runs p xs' @ c # re_sub_runs p ys"
      using t snoc re_sub_runs_split[of p c xs' ys] npc by simp
    moreover have "re_sub_runs p xs = re_sub_runs p xs' @ [c]"
      using snoc re_sub_runs_split[of p c xs' "[]"] npc by simp
    moreover have "re_sub_runs p ys = (if ys = [] then [] else ''-'')"
      using ysP by (simp add: re_sub_runs_all)
    ultimately show ?thesis unfolding xs_def[symmetric] using c by simp
  qed
qed

lemma strip_hyphens_re_sub_runs:
  assumes "p (CHR ''-'')"
  shows "strip_hyphens (re_sub_runs p s) = re_sub_runs p (strip_where p s)"
  unfolding strip_hyphens_def strip_where_def
  using re_sub_runs_dropWhile_hy[of p s] re_sub_runs_dropWhile_hy_rev[of p "dropWhile p s"] assms
  by simp

lemma dropWhile_dropWhile_sub:
  "(\<And>c. q c \<Longrightarrow> p c) \<Longrightarrow> dropWhile p (dropWhile q s) = dropWhile p s"
  by (induction s) auto

lemma strip_where_append_run:
  assumes "\<forall>c\<in>set w. p c"
  shows "strip_where p (v @ w) = strip_where p v"
proof (cases "\<forall>x\<in>set v. p x")
  case True
  with assms have "dropWhile p (v @ w) = []" "dropWhile p v = []" by auto
  then show ?thesis unfolding strip_where_def by (simp del: dropWhile_eq_Nil_conv)
next
  case False
  then obtain x where "x \<in> set v" "\<not> p x" by blast
  then have "dropWhile p (v @ w) = dropWhile p v @ w" by (rule dropWhile_append1)
  moreover have "dropWhile p (rev w @ rev (dropWhile p v)) = dropWhile p (rev (dropWhile p v))"
    using assms by (intro dropWhile_append2) simp
  ultimately show ?thesis unfolding strip_where_def by simp
qed

lemma strip_where_sub:
  assumes "\<And>c. q c \<Longrightarrow> p c"
  shows "strip_where p (strip_where q s) = strip_where p s"
proof -
  define u where "u = dropWhile q s"
  define v where "v = rev (dropWhile q (rev u))"
  define w where "w = rev (takeWhile q (rev u))"
  have u: "u = v @ w"
    unfolding v_def w_def by (metis rev_append rev_rev_ident takeWhile_dropWhile_id)
  have "\<forall>c\<in>set w. p c"
    unfolding w_def using assms by (auto dest: set_takeWhileD)
  then have "strip_where p (v @ w) = strip_where p v" by (rule strip_where_append_run)
  then have "strip_where p v = strip_where p u" using u by simp
  moreover have "strip_where p u = strip_where p s"
    unfolding strip_where_def u_def using dropWhile_dropWhile_sub[of q p s] assms by simp
  moreover have "strip_where q s = v" unfolding strip_where_def v_def u_def ..
  ultimately show ?thesis by simp
qed

lemma space_not_alnum: "is_space c \<Longrightarrow> \<not> is_ascii_alnum c"
  by (auto simp: is_space_def is_ascii_alnum_def)

lemma hyphen_not_alnum: "\<not> is_ascii_alnum (CHR ''-'')"
  by (simp add: is_ascii_alnum_def codepoint_def)

lemma set_strip_where: "set (strip_where p s) \<subseteq> set s"
  unfolding strip_where_def by (auto dest!: set_dropWhileD)

text \<open>White space is outside \<open>[a-zA-Z0-9]\<close>, so the \<open>strip()\<close> before the substitution
  of \<open>models.slugify\<close> changes nothing that the later \<open>strip('-')\<close> would keep.\<close>

lemma slugify_Some:
  "slugify (Some t) =
     take 50 (strip_hyphens (re_sub_runs (\<lambda>c. \<not> is_ascii_alnum c) (py_lower t)))"
proof -
  let ?P = "\<lambda>c. \<not> is_ascii_alnum c"
  have "strip_hyphens (re_sub_runs ?P (py_strip u)) = strip_hyphens (re_sub_runs ?P u)" for u
    using strip_hyphens_re_sub_runs[of ?P] hyphen_not_alnum
      strip_where_sub[of is_space ?P u] space_not_alnum
    by (simp add: py_strip_def)
  then show ?thesis by (simp add: slugify_def py_lower_def strip_hyphens_def strip_where_def)
qed

lemma set_re_sub_runs: "set (re_sub_runs p s) \<subseteq> insert (CHR ''-'') {c \<in> set s. \<not> p c}"
proof (induction p s rule: re_sub_runs.induct)
  case (1 p)
  then show ?case by simp
next
  case (2 p c cs)
  have "set (dropWhile p cs) \<subseteq> set cs" by (auto dest: set_dropWhileD)
  with 2 show ?case by (auto split: if_splits)
qed

lemma lower_alnum_slug_char: "is_ascii_alnum (lower_char c) \<Longrightarrow> is_slug_char (lower_char c)"
  by (auto simp: is_ascii_alnum_def is_slug_char_def lower_char_def codepoint_def of_char_of split: if_splits)

lemma slugify_is_slug: "is_slug (slugify x)"
proof (cases x)
  case None
  then show ?thesis by (simp add: slugify_def is_slug_def)
next
  case (Some t)
  let ?u = "re_sub_runs (\<lambda>c. \<not> is_ascii_alnum c) (py_lower t)"
  have "set ?u \<subseteq> insert (CHR ''-'') {c \<in> set (py_lower t). \<not> \<not> is_ascii_alnum c}"
    by (rule set_re_sub_runs)
  then have "\<forall>c\<in>set ?u. is_slug_char c"
    using lower_alnum_slug_char by (auto simp: py_lower_def is_slug_char_def)
  moreover have "set (take 50 (strip_hyphens ?u)) \<subseteq> set ?u"
    using set_take_subset[of 50 "strip_hyphens ?u"] set_strip_where[of "\<lambda>c. c = CHR ''-''" ?u]
    by (auto simp: strip_hyphens_def)
  ultimately have "\<forall>c\<in>set (take 50 (strip_hyphens ?u)). is_slug_char c" by blast
  then show ?thesis
    using slugify_Some[of t] Some by (simp add: is_slug_def list_all_iff)
qed

text \<open>
  C9.  For every input string, the tag slug function \<open>models.slugify\<close> lowercases the
  text, replaces each maximal run of characters outside \<open>[a-zA-Z0-9]\<close> by one hyphen,
  strips the hyphens at both ends and keeps the first 50 characters of the result; the
  missing input (\<open>None\<close>) and the empty string give the empty slug.  The right-hand side
  is the chain of the four steps in the order of the claim; the source has one more step,
  a \<open>strip()\<close> of white space before the substitution, which never changes the result.
\<close>

theorem slugify_pipeline:
  "slugify None = [] \<and> slugify (Some []) = [] \<and>
   slugify (Some t) =
     take 50 (strip_hyphens (re_sub_runs (\<lambda>c. \<not> is_ascii_alnum c) (py_lower t))) \<and>
   length (slugify (Some t)) \<le> 50"
  using slugify_Some[of t] by (simp add: slugify_def)

subsection \<open>The two slug functions compared\<close>

lemma re_sub_runs_cong:
  "(\<And>c. c \<in> set s \<Longrightarrow> p c = q c) \<Longrightarrow> re_sub_runs p s = re_sub_runs q s"
proof (induction p s rule: re_sub_runs.induct)
  case (1 p)
  then show ?case by simp
next
  case (2 p c cs)
  have d: "dropWhile p cs = dropWhile q cs"
    using 2(3) by (intro dropWhile_cong) auto
  have "set (dropWhile q cs) \<subseteq> set cs" by (rule set_dropWhileD[THEN subsetI]) 
  with 2 d show ?case by (auto simp: subset_iff)
qed

lemma is_space_lower: "is_space (lower_char c) = is_space c"
  by (auto simp: is_space_def lower_char_def codepoint_def of_char_of)

lemma is_alnum_lower: "is_ascii_alnum (lower_char c) = is_ascii_alnum c"
  by (auto simp: is_ascii_alnum_def lower_char_def codepoint_def of_char_of)

lemma lower_char_hyphen: "lower_char (CHR ''-'') = CHR ''-''"
  by (simp add: lower_char_def codepoint_def)

lemma py_lower_strip: "py_lower (py_strip s) = py_strip (py_lower s)"
  unfolding py_lower_def py_strip_def strip_where_def
  by (simp add: dropWhile_map rev_map comp_def is_space_lower)

text \<open>
  C10 as stated: \<open>utils.slugify\<close> and \<open>models.slugify\<close> return the same slug for every
  input.  They do not: \<open>utils.slugify\<close> keeps the underscore (it is in \<open>\w\<close>), and
  \<open>models.slugify\<close> turns it into a hyphen.
\<close>

theorem slugify_functions_differ:
  "utils_slugify ''a_b'' = ''a_b'' \<and> slugify (Some ''a_b'') = ''a-b'' \<and>
   utils_slugify ''a_b'' \<noteq> slugify (Some ''a_b'')"
  by code_simp

text \<open>
  C10, amended.  On a name made of ASCII letters, digits, white space and hyphens only,
  \<open>models.slugify\<close> returns the slug of \<open>utils.slugify\<close> without its leading and trailing
  hyphens, cut to 50 characters.
\<close>

theorem slugify_utils_vs_models:
  assumes "plain_name t"
  shows "slugify (Some t) = take 50 (strip_hyphens (utils_slugify t))"
proof -
  let ?P = "\<lambda>c. \<not> is_ascii_alnum c"
  let ?Q = "\<lambda>c. c = CHR ''-'' \<or> is_space c"
  from assms have cls: "\<And>c. c \<in> set t \<Longrightarrow> codepoint c < 128 \<and> (is_ascii_alnum c \<or> is_space c \<or> c = CHR ''-'')"
    by (simp add: plain_name_def list_all_iff)
  have "concat (map nfkd_ascii u) = u" if "\<forall>c\<in>set u. codepoint c < 128" for u
    using that by (induction u) (simp_all add: nfkd_ascii_def)
  then have fold: "ascii_fold t = t"
    unfolding ascii_fold_def using cls by simp
  have filt: "filter (\<lambda>c. is_word c \<or> is_space c \<or> c = CHR ''-'') t = t"
    using cls by (auto simp: filter_id_conv is_word_def)
  have pq: "?Q c = ?P c" if "c \<in> set (py_lower t)" for c
  proof -
    from that obtain d where d: "d \<in> set t" "c = lower_char d" by (auto simp: py_lower_def)
    from cls[OF d(1)] consider "is_ascii_alnum d" | "is_space d" | "d = CHR ''-''" by blast
    then show ?thesis
    proof cases
      case 1
      then have "is_ascii_alnum c" using d by (simp add: is_alnum_lower)
      then show ?thesis using hyphen_not_alnum space_not_alnum by auto
    next
      case 2
      then have "is_space c" using d by (simp add: is_space_lower)
      then show ?thesis using space_not_alnum by auto
    next
      case 3
      then show ?thesis using d hyphen_not_alnum by (simp add: lower_char_hyphen)
    qed
  qed
  have "utils_slugify t = re_sub_runs ?Q (py_strip (py_lower t))"
    by (simp add: utils_slugify_def fold filt py_lower_strip)
  also have "\<dots> = re_sub_runs ?P (py_strip (py_lower t))"
    using pq set_strip_where[of is_space "py_lower t"]
    by (intro re_sub_runs_cong) (auto simp: py_strip_def)
  finally have u: "utils_slugify t = re_sub_runs ?P (py_strip (py_lower t))" .
  show ?thesis
  proof (cases "t = []")
    case True
    with u have "utils_slugify t = []"
      by (simp add: py_lower_def py_strip_def strip_where_def)
    with True show ?thesis
      by (simp add: slugify_def strip_hyphens_def strip_where_def)
  next
    case False
    then show ?thesis by (simp add: slugify_def u)
  qed
qed

theorem slugify_utils_vs_models_witness:
  "plain_name '' My  Cool--Profile '' \<and>
   slugify (Some '' My  Cool--Profile '') = ''my-cool-profile'' \<and>
   take 50 (strip_hyphens (utils_slugify '' My  Cool--Profile '')) = ''my-cool-profile''"
proof -
  have h: "plain_name '' My  Cool--Profile ''" by code_simp
  have e: "slugify (Some '' My  Cool--Profile '') = ''my-cool-profile''" by code_simp
  show ?thesis using slugify_utils_vs_models[OF h] h e by simp
qed

section \<open>Properties of the tag operations\<close>

lemma slug_summer: "slugify (Some ''Summer 2025'') = ''summer-2025''"
  by code_simp

lemma add_tag_summer: "''summer-2025'' \<in> set (get_tags (add_tag r ''Summer 2025'' ''collection''))"
proof -
  define m where "m = (if no_tags (r_tags r)
               then [''categories'' \<mapsto> [], ''collections'' \<mapsto> []]
               else (case r_tags r of Some m0 \<Rightarrow> m0 | None \<Rightarrow> Map.empty))"
  define m' where "m' = (if ''summer-2025'' \<notin> set (tags_get m ''collections'')
                      then m(''collections'' \<mapsto> tags_get m ''collections'' @ [''summer-2025''])
                      else m)"
  have r: "r_tags (add_tag r ''Summer 2025'' ''collection'') = Some m'"
    by (simp add: add_tag_def Let_def slug_summer m_def m'_def)
  have "''summer-2025'' \<in> set (tags_get m' ''collections'')"
    by (simp add: m'_def tags_get_def)
  then have "m' \<noteq> Map.empty" "''summer-2025'' \<in> set (case m' ''collections'' of None \<Rightarrow> [] | Some v \<Rightarrow> v)"
    by (auto simp: tags_get_def)
  then show ?thesis by (simp add: get_tags_def r)
qed

lemma add_tag_result:
  "\<exists>m'. add_tag r tag_name tag_type = r\<lparr>r_tags := Some m'\<rparr> \<and> m' \<noteq> Map.empty \<and>
        slugify (Some tag_name) \<in> set (tags_get m' (tag_key tag_type))"
proof -
  define m where "m = (if no_tags (r_tags r)
               then [''categories'' \<mapsto> [], ''collections'' \<mapsto> []]
               else (case r_tags r of Some m0 \<Rightarrow> m0 | None \<Rightarrow> Map.empty))"
  define k where "k = tag_key tag_type"
  define m' where "m' = (if slugify (Some tag_name) \<notin> set (tags_get m k)
                      then m(k \<mapsto> tags_get m k @ [slugify (Some tag_name)])
                      else m)"
  have m: "m \<noteq> Map.empty"
    unfolding m_def no_tags_def by (cases "r_tags r") (auto simp del: fun_upd_apply)
  have "add_tag r tag_name tag_type = r\<lparr>r_tags := Some m'\<rparr>"
    unfolding add_tag_def Let_def m_def[symmetric] m'_def k_def tag_key_def by simp
  moreover have "m' \<noteq> Map.empty" using m unfolding m'_def by simp
  moreover have "slugify (Some tag_name) \<in> set (tags_get m' k)"
    unfolding m'_def by (simp add: tags_get_def)
  ultimately show ?thesis unfolding k_def by blast
qed

lemma add_tag_again:
  assumes "m' \<noteq> Map.empty" "slugify (Some tag_name) \<in> set (tags_get m' (tag_key tag_type))"
  shows "add_tag (r\<lparr>r_tags := Some m'\<rparr>) tag_name tag_type = r\<lparr>r_tags := Some m'\<rparr>"
  using assms unfolding add_tag_def Let_def no_tags_def tag_key_def
  by (simp split: if_splits)

text \<open>
  C6.  For every recommendation, \<open>add_tag("Summer 2025", "collection")\<close> followed by
  \<open>get_tags()\<close> gives a list that contains \<open>"summer-2025"\<close>; and for every tag text and
  tag type, a second \<open>add_tag\<close> with the same arguments leaves the recommendation as the
  first one left it: the slug is not added twice.
\<close>

theorem add_tag_get_tags:
  "''summer-2025'' \<in> set (get_tags (add_tag r ''Summer 2025'' ''collection'')) \<and>
   add_tag (add_tag r tag_name tag_type) tag_name tag_type = add_tag r tag_name tag_type"
  using add_tag_summer add_tag_result[of r tag_name tag_type] add_tag_again[of _ tag_name tag_type r]
  by metis

subsection \<open>What the writers of the tags keep\<close>

text \<open>\<open>add_tag\<close> preserves the invariant; the form handlers and the \<open>PUT\<close> handler store
  only the two keys and only normalized slugs.\<close>

lemma add_tag_keeps_normal:
  assumes "normal_tags (r_tags r)"
  shows "normal_tags (r_tags (add_tag r tag_name tag_type))"
proof -
  define m where "m = (if no_tags (r_tags r)
               then [''categories'' \<mapsto> [], ''collections'' \<mapsto> []]
               else (case r_tags r of Some m0 \<Rightarrow> m0 | None \<Rightarrow> Map.empty))"
  define k where "k = tag_key tag_type"
  define s where "s = slugify (Some tag_name)"
  define m' where "m' = (if s \<notin> set (tags_get m k) then m(k \<mapsto> tags_get m k @ [s]) else m)"
  have e: "r_tags (add_tag r tag_name tag_type) = Some m'"
    unfolding add_tag_def Let_def m_def[symmetric] m'_def k_def tag_key_def s_def by simp
  have k: "k \<in> {''categories'', ''collections''}" by (simp add: k_def tag_key_def)
  have m: "normal_tags (Some m)"
    using assms unfolding m_def no_tags_def normal_tags_def
    by (cases "r_tags r") (auto simp: dom_def)
  have g: "list_all is_slug (tags_get m k) \<and> distinct (tags_get m k)"
    using m by (cases "m k") (auto simp: normal_tags_def tags_get_def)
  have "normal_tags (Some m')"
  proof (cases "s \<in> set (tags_get m k)")
    case True
    with m show ?thesis by (simp add: m'_def)
  next
    case False
    have "is_slug s" by (simp add: s_def slugify_is_slug)
    with False g k m show ?thesis
      unfolding m'_def normal_tags_def by (auto simp: dom_def)
  qed
  with e show ?thesis by simp
qed

lemma form_tags_keys_slugs:
  assumes "form_tags a b = Some m"
  shows "dom m \<subseteq> {''categories'', ''collections''} \<and>
         (\<forall>k xs. m k = Some xs \<longrightarrow> list_all is_slug xs)"
proof -
  have s: "list_all is_slug (map (\<lambda>t. slugify (Some t)) ys)" for ys
    by (simp add: list_all_iff slugify_is_slug)
  show ?thesis
    using assms s
    by (auto simp: form_tags_def Let_def dom_def split: if_splits)
qed

lemma put_tags_keys_slugs:
  assumes "put_tags a b = Some m"
  shows "dom m \<subseteq> {''categories'', ''collections''} \<and>
         (\<forall>k xs. m k = Some xs \<longrightarrow> list_all is_slug xs)"
proof -
  have s: "list_all is_slug (map (\<lambda>t. slugify (Some t)) ys)" for ys
    by (simp add: list_all_iff slugify_is_slug)
  show ?thesis
    using assms s
    by (auto simp: put_tags_def Let_def dom_def split: if_splits)
qed

lemma slug_food: "slugify (Some ''food'') = ''food''"
  by code_simp

text \<open>
  C3 asks that every writer of the tags stores deduplicated lists.  \<open>add_tag\<close> tests
  \<open>tag_slug not in ...\<close> before it appends; the creation form, the edit form and the
  \<open>PUT\<close> replacement map \<open>slugify\<close> over the submitted names and store the list as it
  comes.  The tag field \<open>food, food\<close> of the form, and the JSON list
  \<open>["food", "food"]\<close> of the \<open>PUT\<close> body, are stored with the slug twice.
\<close>

theorem tag_writers_keep_duplicates:
  "(case form_tags ''food, food'' [] of None \<Rightarrow> None | Some m \<Rightarrow> m ''categories'')
     = Some [''food'', ''food''] \<and>
   (case put_tags [''food'', ''food''] [] of None \<Rightarrow> None | Some m \<Rightarrow> m ''categories'')
     = Some [''food'', ''food'']"
proof -
  have s: "split_tags ''food, food'' = [''food'', ''food'']" by code_simp
  have t: "py_strip ''food'' = ''food''" by code_simp
  show ?thesis by (simp add: form_tags_def put_tags_def Let_def s t slug_food)
qed

section \<open>Properties of the tag filter\<close>

lemma slug_char_plain:
  "is_slug_char c \<Longrightarrow>
     c \<noteq> dquote \<and> c \<noteq> CHR 0x5C \<and> c \<noteq> CHR '','' \<and> c \<noteq> CHR '']'' \<and> c \<noteq> CHR '' ''"
  by (auto simp: is_slug_char_def codepoint_def dquote_def)

lemma json_string_slug:
  assumes "list_all is_slug_char x"
  shows "json_string x = dquote # x @ [dquote]"
proof -
  have "concat (map json_escape_char x) = x"
    using assms
    by (induction x) (auto simp: json_escape_char_def dest: slug_char_plain)
  then show ?thesis by (simp add: json_string_def)
qed

lemma sublist_skip_char:
  "c \<noteq> q \<Longrightarrow> sublist (q # p) (c # w) = sublist (q # p) w"
  by (simp add: sublist_Cons_right)

lemma sublist_skip_run:
  "\<forall>c\<in>set x. c \<noteq> q \<Longrightarrow> sublist (q # p) (x @ w) = sublist (q # p) w"
  by (induction x) (simp_all add: sublist_skip_char)

lemma takeWhile_until:
  "\<forall>c\<in>set x. c \<noteq> q \<Longrightarrow> takeWhile (\<lambda>c. c \<noteq> q) (x @ q # rest) = x"
  by (induction x) auto

lemma prefix_until_quote:
  assumes "\<forall>c\<in>set s. c \<noteq> q" and "\<forall>c\<in>set x. c \<noteq> q"
  shows "prefix (s @ [q]) (x @ q # rest) = (s = x)"
proof
  assume "prefix (s @ [q]) (x @ q # rest)"
  then obtain zs where z: "x @ q # rest = (s @ [q]) @ zs" by (auto simp: prefix_def)
  have "takeWhile (\<lambda>c. c \<noteq> q) (x @ q # rest) = x"
    using assms(2) by (rule takeWhile_until)
  moreover have "takeWhile (\<lambda>c. c \<noteq> q) (s @ q # zs) = s"
    using assms(1) by (rule takeWhile_until)
  ultimately show "s = x" using z by simp
next
  assume "s = x" then show "prefix (s @ [q]) (x @ q # rest)" by simp
qed

lemma occurrence_at_opening_quote:
  assumes "\<forall>c\<in>set s. c \<noteq> q" and "\<forall>c\<in>set x. c \<noteq> q"
  shows "sublist (q # s @ [q]) (q # x @ q # rest) =
           (s = x \<or> sublist (q # s @ [q]) (q # rest))"
  using prefix_until_quote[OF assms, of rest] sublist_skip_run[OF assms(2), of "s @ [q]" "q # rest"]
  by (simp add: sublist_Cons_right)

lemma no_occurrence_at_closing_quote:
  assumes "\<forall>c\<in>set s. c \<noteq> c0" and "c0 \<noteq> q"
  shows "sublist (q # s @ [q]) (q # c0 # w) = sublist (q # s @ [q]) w"
proof -
  have "\<not> prefix (s @ [q]) (c0 # w)"
    using assms by (cases s) auto
  then show ?thesis using assms(2) by (simp add: sublist_Cons_right)
qed



lemma rest_of_list_Cons:
  "rest_of_list (x # xs) =
     json_string x @ (if xs = [] then '']'' else '', '' @ rest_of_list xs)"
  by (cases xs) (simp_all add: rest_of_list_def)

lemma occurrence_in_list:
  assumes "list_all is_slug_char s" and "list_all (list_all is_slug_char) xs"
  shows "sublist (dquote # s @ [dquote]) (rest_of_list xs) = (s \<in> set xs)"
  using assms(2)
proof (induction xs)
  case Nil
  have "CHR '']'' \<noteq> dquote" by (simp add: dquote_def)
  then show ?case by (simp add: rest_of_list_def sublist_skip_char)
next
  case (Cons x xs)
  let ?p = "dquote # s @ [dquote]"
  have sq: "\<forall>c\<in>set s. c \<noteq> dquote" "\<forall>c\<in>set s. c \<noteq> CHR '',''" "\<forall>c\<in>set s. c \<noteq> CHR '']''"
    using assms(1) by (auto simp: list_all_iff dest: slug_char_plain)
  have xq: "\<forall>c\<in>set x. c \<noteq> dquote"
    using Cons.prems by (auto simp: list_all_iff dest: slug_char_plain)
  have jx: "json_string x = dquote # x @ [dquote]"
    using Cons.prems by (simp add: json_string_slug)
  have ne: "CHR '','' \<noteq> dquote" "CHR '']'' \<noteq> dquote" "CHR '' '' \<noteq> dquote"
    by (simp_all add: dquote_def)
  have ih: "sublist ?p (rest_of_list xs) = (s \<in> set xs)"
    using Cons by simp
  show ?case
  proof (cases "xs = []")
    case True
    have "sublist ?p (dquote # x @ dquote # '']'') = (s = x \<or> sublist ?p (dquote # '']''))"
      using sq(1) xq by (rule occurrence_at_opening_quote)
    moreover have "sublist ?p (dquote # '']'') = sublist ?p []"
      using sq(3) ne(2) by (rule no_occurrence_at_closing_quote)
    ultimately show ?thesis using True by (simp add: rest_of_list_Cons jx)
  next
    case False
    let ?r = "rest_of_list xs"
    have "sublist ?p (dquote # x @ dquote # '', '' @ ?r) =
            (s = x \<or> sublist ?p (dquote # '', '' @ ?r))"
      using sq(1) xq by (rule occurrence_at_opening_quote)
    moreover have "sublist ?p (dquote # CHR '','' # '' '' @ ?r) = sublist ?p ('' '' @ ?r)"
      using sq(2) ne(1) by (rule no_occurrence_at_closing_quote)
    moreover have "sublist ?p (CHR '' '' # ?r) = sublist ?p ?r"
      using ne(3) by (rule sublist_skip_char)
    ultimately show ?thesis using False ih by (simp add: rest_of_list_Cons jx)
  qed
qed

lemma occurrence_in_json_list:
  assumes "list_all is_slug_char s" and "list_all (list_all is_slug_char) xs"
  shows "sublist (dquote # s @ [dquote]) (json_list xs) = (s \<in> set xs)"
proof -
  have "CHR ''['' \<noteq> dquote" by (simp add: dquote_def)
  then have "sublist (dquote # s @ [dquote]) (json_list xs) =
             sublist (dquote # s @ [dquote]) (rest_of_list xs)"
    by (simp add: json_list_def rest_of_list_def sublist_skip_char)
  then show ?thesis using occurrence_in_list[OF assms] by simp
qed

lemma tag_condition_unfold:
  "tag_condition r s =
     ((\<exists>m xs. r_tags r = Some m \<and> m ''categories'' = Some xs \<and>
          sublist (dquote # s @ [dquote]) (json_list xs)) \<or>
      (\<exists>m xs. r_tags r = Some m \<and> m ''collections'' = Some xs \<and>
          sublist (dquote # s @ [dquote]) (json_list xs)))"
  by (auto simp: tag_condition_def sql_like_contains_def json_field_text_def
      split: option.splits)

lemma tag_condition_member:
  assumes "stored_slugs r" and "list_all is_slug_char s"
  shows "tag_condition r s = (s \<in> set (get_tags r))"
proof (cases "r_tags r")
  case None
  then show ?thesis by (simp add: tag_condition_unfold get_tags_def)
next
  case (Some m)
  have k: "(\<exists>xs. m key = Some xs \<and> sublist (dquote # s @ [dquote]) (json_list xs)) =
           (s \<in> set (case m key of None \<Rightarrow> [] | Some v \<Rightarrow> v))"
    if "list_all (list_all is_slug_char) (tags_get m key)" for key
    using that occurrence_in_json_list[OF assms(2)]
    by (cases "m key") (simp_all add: tags_get_def)
  have l: "list_all (list_all is_slug_char) (tags_get m ''categories'')"
    "list_all (list_all is_slug_char) (tags_get m ''collections'')"
    using assms(1) Some by (simp_all add: stored_slugs_def)
  show ?thesis
  proof (cases "m = Map.empty")
    case True
    with Some show ?thesis by (simp add: tag_condition_unfold get_tags_def)
  next
    case False
    with Some k[OF l(1)] k[OF l(2)] show ?thesis
      by (simp add: tag_condition_unfold get_tags_def)
  qed
qed

lemma slugify_slug_chars: "list_all is_slug_char (slugify x)"
  using slugify_is_slug[of x] by (simp add: is_slug_def)

text \<open>
  C1, amended.  The pattern of the query is the slug between double quotes.  A
  recommendation matches a requested tag exactly when the quoted slug occurs in the JSON
  text of its \<open>categories\<close> list or of its \<open>collections\<close> list; for lists that hold slug
  text, as every writer stores them, that is exactly when the slug is an element of one
  of the two lists.  The rows of the query are the visible recommendations that match
  every requested tag (logical AND), and the endpoint returns rows of the query only.
\<close>

theorem tag_filter_quoted_containment:
  assumes "stored_slugs r"
  shows
    "tag_condition r (slugify (Some t)) =
       ((\<exists>m xs. r_tags r = Some m \<and> m ''categories'' = Some xs \<and>
            sublist (dquote # slugify (Some t) @ [dquote]) (json_list xs)) \<or>
        (\<exists>m xs. r_tags r = Some m \<and> m ''collections'' = Some xs \<and>
            sublist (dquote # slugify (Some t) @ [dquote]) (json_list xs))) \<and>
     tag_condition r (slugify (Some t)) = (slugify (Some t) \<in> set (get_tags r)) \<and>
     (r \<in> set (selected_rows user_id tags_param db)) =
       (r \<in> set (recommendations db) \<and> visible_to user_id db r \<and>
        (\<forall>tag\<in>set (parse_tags_param tags_param). slugify (Some tag) \<in> set (get_tags r))) \<and>
     set (get_recommendations_by_tags user_id tags_param db)
       \<subseteq> set (selected_rows user_id tags_param db)"
proof (intro conjI)
  show "tag_condition r (slugify (Some t)) =
       ((\<exists>m xs. r_tags r = Some m \<and> m ''categories'' = Some xs \<and>
            sublist (dquote # slugify (Some t) @ [dquote]) (json_list xs)) \<or>
        (\<exists>m xs. r_tags r = Some m \<and> m ''collections'' = Some xs \<and>
            sublist (dquote # slugify (Some t) @ [dquote]) (json_list xs)))"
    by (rule tag_condition_unfold)
  show "tag_condition r (slugify (Some t)) = (slugify (Some t) \<in> set (get_tags r))"
    using assms slugify_slug_chars by (rule tag_condition_member)
  have "tag_condition r (slugify (Some tag)) = (slugify (Some tag) \<in> set (get_tags r))" for tag
    using assms slugify_slug_chars by (rule tag_condition_member)
  then show "(r \<in> set (selected_rows user_id tags_param db)) =
       (r \<in> set (recommendations db) \<and> visible_to user_id db r \<and>
        (\<forall>tag\<in>set (parse_tags_param tags_param). slugify (Some tag) \<in> set (get_tags r)))"
    by (simp add: selected_rows_def list_all_iff)
  show "set (get_recommendations_by_tags user_id tags_param db)
       \<subseteq> set (selected_rows user_id tags_param db)"
    using set_take_subset[of 50 "sort_key (\<lambda>r. - r_created_at r) (selected_rows user_id tags_param db)"]
    by (simp add: get_recommendations_by_tags_def)
qed



text \<open>
  C1 as stated: a recommendation matches a tag exactly when the tag's slug is a substring
  of the serialized tag lists, so that \<open>art\<close> matches a recommendation that carries only
  \<open>smart-art\<close>.  The slug \<open>art\<close> is a substring of the serialized list of Alice's
  recommendation, which is visible to everybody, and the query for \<open>art\<close> does not select
  it: the pattern is \<open>"art"\<close> with its quotes.
\<close>

theorem art_does_not_match_smart_art:
  "smart_art_rec \<in> set (recommendations example_db) \<and>
   visible_to None example_db smart_art_rec \<and>
   slugify (Some ''art'') = ''art'' \<and>
   json_field_text (r_tags smart_art_rec) ''collections'' = Some (json_list [''smart-art'']) \<and>
   sublist ''art'' (json_list [''smart-art'']) \<and>
   \<not> tag_condition smart_art_rec (slugify (Some ''art'')) \<and>
   get_recommendations_by_tags None ''art'' example_db = []"
proof -
  have a: "slugify (Some ''art'') = ''art''" by code_simp
  have m: "smart_art_rec \<in> set (recommendations example_db)"
    by (simp add: smart_art_rec_def example_db_def)
  have v: "visible_to None example_db smart_art_rec"
    by (simp add: visible_to_def smart_art_rec_def example_db_def)
  have j: "json_field_text (r_tags smart_art_rec) ''collections'' = Some (json_list [''smart-art''])"
    by (simp add: json_field_text_def smart_art_rec_def)
  have s: "sublist ''art'' (json_list [''smart-art''])" by code_simp
  have n: "\<not> tag_condition smart_art_rec ''art''" by code_simp
  have p: "parse_tags_param ''art'' = [''art'']" by code_simp
  have "selected_rows None ''art'' example_db = []"
    using n by (simp add: selected_rows_def p a example_db_def visible_to_def smart_art_rec_def
        tag_condition_def json_field_text_def sql_like_contains_def)
  then have g: "get_recommendations_by_tags None ''art'' example_db = []"
    by (simp add: get_recommendations_by_tags_def)
  show ?thesis using a m v j s n g by simp
qed

theorem tag_filter_quoted_containment_witness:
  "stored_slugs smart_art_rec \<and>
   slugify (Some ''Smart Art'') = ''smart-art'' \<and>
   tag_condition smart_art_rec (slugify (Some ''Smart Art'')) \<and>
   \<not> tag_condition smart_art_rec (slugify (Some ''art''))"
proof -
  have h: "stored_slugs smart_art_rec" by code_simp
  have a: "slugify (Some ''art'') = ''art''" by code_simp
  have b: "slugify (Some ''Smart Art'') = ''smart-art''" by code_simp
  have g: "get_tags smart_art_rec = [''smart-art'']"
    by (simp add: get_tags_def smart_art_rec_def)
  have y: "tag_condition smart_art_rec (slugify (Some ''Smart Art''))"
    using tag_filter_quoted_containment[OF h, of "''Smart Art''", THEN conjunct2, THEN conjunct1]
      b g by simp
  have n: "\<not> tag_condition smart_art_rec (slugify (Some ''art''))"
    using tag_filter_quoted_containment[OF h, of "''art''", THEN conjunct2, THEN conjunct1]
      a g by simp
  show ?thesis using h b y n by simp
qed

section \<open>Properties of follows and likes\<close>

lemma find_Some_holds: "find P xs = Some x \<Longrightarrow> P x \<and> x \<in> set xs"
  by (induction xs) (auto split: if_splits)

lemma get_user_id: "get_user db uid = Some u \<Longrightarrow> u_id u = uid"
  unfolding get_user_def by (drule find_Some_holds) simp

lemma is_following_iff: "is_following db u v = ((u_id u, u_id v) \<in> set (follow_pairs db))"
  unfolding is_following_def follow_pairs_def by (force simp: find_None_iff image_iff)

lemma unique_constraints_pairs:
  "unique_constraints db \<Longrightarrow> distinct (follow_pairs db) \<and> distinct (like_pairs db)"
  by (simp add: unique_constraints_def follow_pairs_def like_pairs_def)

lemma commit_follows:
  assumes "unique_constraints db" and "(a, b) \<notin> set (follow_pairs db)"
  shows "commit (db\<lparr>follows := follows db @ [\<lparr>f_id = i, f_follower_id = a, f_followed_id = b\<rparr>]\<rparr>)
         = Some (db\<lparr>follows := follows db @ [\<lparr>f_id = i, f_follower_id = a, f_followed_id = b\<rparr>]\<rparr>)"
  using assms unfolding commit_def unique_constraints_def follow_pairs_def by auto

lemma commit_likes_add:
  assumes "unique_constraints db" and "(a, b) \<notin> set (like_pairs db)"
  shows "commit (db\<lparr>likes := likes db @ [\<lparr>l_id = i, l_user_id = a, l_recommendation_id = b\<rparr>]\<rparr>)
         = Some (db\<lparr>likes := likes db @ [\<lparr>l_id = i, l_user_id = a, l_recommendation_id = b\<rparr>]\<rparr>)"
  using assms unfolding commit_def unique_constraints_def like_pairs_def by auto

lemma commit_likes_filter:
  assumes "unique_constraints db"
  shows "commit (db\<lparr>likes := filter P (likes db)\<rparr>) = Some (db\<lparr>likes := filter P (likes db)\<rparr>)"
  using assms unfolding commit_def unique_constraints_def by (auto simp: distinct_map_filter)

lemma commit_unique: "commit d = Some d' \<Longrightarrow> unique_constraints d'"
  by (auto simp: commit_def split: if_splits)

lemma follow_user_result:
  assumes "unique_constraints db" and "s_user_id sess = Some uid"
    and "get_user db uid = Some current_user" and "get_user db target = Some user_to_follow"
  shows "follow_user sess referrer target db =
           (redirect_back referrer, sess,
            if (uid, target) \<in> set (follow_pairs db) then db
            else db\<lparr>follows := follows db @
                   [\<lparr>f_id = next_id (map f_id (follows db)), f_follower_id = uid,
                     f_followed_id = target\<rparr>]\<rparr>)"
proof -
  have ids: "u_id current_user = uid" "u_id user_to_follow = target"
    using assms(3,4) by (auto dest: get_user_id)
  show ?thesis
  proof (cases "(uid, target) \<in> set (follow_pairs db)")
    case True
    then have "is_following db current_user user_to_follow"
      using ids by (simp add: is_following_iff)
    with assms True show ?thesis by (simp add: follow_user_def)
  next
    case False
    then have n: "\<not> is_following db current_user user_to_follow"
      using ids by (simp add: is_following_iff)
    let ?db = "db\<lparr>follows := follows db @
           [\<lparr>f_id = next_id (map f_id (follows db)), f_follower_id = uid,
             f_followed_id = target\<rparr>]\<rparr>"
    have c: "commit ?db = Some ?db" using assms(1) False by (rule commit_follows)
    show ?thesis using assms(2-4) n ids c False by (simp add: follow_user_def)
  qed
qed

lemma follow_user_distinct:
  assumes "unique_constraints db"
  shows "distinct (follow_pairs (snd (snd (follow_user sess referrer target db))))"
proof (cases "s_user_id sess")
  case None
  with assms show ?thesis by (simp add: follow_user_def unique_constraints_pairs)
next
  case (Some uid)
  show ?thesis
  proof (cases "get_user db target")
    case None
    with Some assms show ?thesis by (simp add: follow_user_def unique_constraints_pairs)
  next
    case tu: (Some user_to_follow)
    show ?thesis
    proof (cases "get_user db uid")
      case None
      with Some tu assms show ?thesis by (simp add: follow_user_def unique_constraints_pairs)
    next
      case cu: (Some current_user)
      let ?db = "db\<lparr>follows := follows db @
             [\<lparr>f_id = next_id (map f_id (follows db)), f_follower_id = uid,
               f_followed_id = target\<rparr>]\<rparr>"
      show ?thesis
      proof (cases "(uid, target) \<in> set (follow_pairs db)")
        case True
        with follow_user_result[OF assms Some cu tu, of referrer] assms
        show ?thesis by (simp add: unique_constraints_pairs)
      next
        case False
        have "commit ?db = Some ?db" using assms False by (rule commit_follows)
        then have "unique_constraints ?db" by (rule commit_unique)
        with follow_user_result[OF assms Some cu tu, of referrer] False
        show ?thesis by (simp add: unique_constraints_pairs)
      qed
    qed
  qed
qed

lemma public_recommendation_id:
  "public_recommendation db ps cs rid = Some r \<Longrightarrow> r_id r = rid \<and> r \<in> set (recommendations db)"
  unfolding public_recommendation_def
  by (auto split: option.splits dest: find_Some_holds)

lemma unlike_removes_pair:
  assumes "distinct (like_pairs db)" and "l \<in> set (likes db)"
  shows "(l_user_id l, l_recommendation_id l)
           \<notin> set (like_pairs (db\<lparr>likes := filter (\<lambda>x. l_id x \<noteq> l_id l) (likes db)\<rparr>))"
proof
  assume "(l_user_id l, l_recommendation_id l)
            \<in> set (like_pairs (db\<lparr>likes := filter (\<lambda>x. l_id x \<noteq> l_id l) (likes db)\<rparr>))"
  then obtain x where x: "x \<in> set (likes db)" "l_id x \<noteq> l_id l"
    "l_user_id x = l_user_id l" "l_recommendation_id x = l_recommendation_id l"
    by (auto simp: like_pairs_def)
  with assms have "x = l"
    unfolding like_pairs_def distinct_map by (auto dest!: inj_onD)
  with x show False by simp
qed

lemma like_recommendation_result:
  assumes "unique_constraints db" and "s_user_id sess = Some uid"
    and "get_user db uid = Some u" and "public_recommendation db ps cs rid = Some r"
  shows "if (uid, rid) \<in> set (like_pairs db)
         then \<exists>l\<in>set (likes db). l_user_id l = uid \<and> l_recommendation_id l = rid \<and>
                like_recommendation sess ps cs rid db =
                  (Json ''unliked'', sess,
                   db\<lparr>likes := filter (\<lambda>x. l_id x \<noteq> l_id l) (likes db)\<rparr>) \<and>
                (uid, rid) \<notin> set (like_pairs
                   (db\<lparr>likes := filter (\<lambda>x. l_id x \<noteq> l_id l) (likes db)\<rparr>))
         else like_recommendation sess ps cs rid db =
                (Json ''liked'', sess,
                 db\<lparr>likes := likes db @
                      [\<lparr>l_id = next_id (map l_id (likes db)), l_user_id = uid,
                        l_recommendation_id = rid\<rparr>]\<rparr>)"
proof -
  have rid: "r_id r = rid" using assms(4) by (simp add: public_recommendation_id)
  have uid: "u_id u = uid" using assms(3) by (rule get_user_id)
  show ?thesis
  proof (cases "find (\<lambda>l. l_user_id l = uid \<and> l_recommendation_id l = rid) (likes db)")
    case None
    then have n: "(uid, rid) \<notin> set (like_pairs db)"
      by (force simp: find_None_iff like_pairs_def)
    let ?db = "db\<lparr>likes := likes db @
           [\<lparr>l_id = next_id (map l_id (likes db)), l_user_id = uid,
             l_recommendation_id = rid\<rparr>]\<rparr>"
    have c: "commit ?db = Some ?db" using assms(1) n by (rule commit_likes_add)
    have "like_recommendation sess ps cs rid db = (Json ''liked'', sess, ?db)"
      using assms(2-4) None uid rid c by (simp add: like_recommendation_def)
    with n show ?thesis by simp
  next
    case l: (Some l)
    then have lp: "l_user_id l = uid" "l_recommendation_id l = rid" "l \<in> set (likes db)"
      by (auto dest: find_Some_holds)
    then have y: "(uid, rid) \<in> set (like_pairs db)"
      by (force simp: like_pairs_def)
    let ?db = "db\<lparr>likes := filter (\<lambda>x. l_id x \<noteq> l_id l) (likes db)\<rparr>"
    have c: "commit ?db = Some ?db" using assms(1) by (rule commit_likes_filter)
    have d: "distinct (like_pairs db)" using assms(1) by (simp add: unique_constraints_pairs)
    have gone: "(uid, rid) \<notin> set (like_pairs ?db)"
      using unlike_removes_pair[OF d lp(3)] lp(1,2) by simp
    have "like_recommendation sess ps cs rid db = (Json ''unliked'', sess, ?db)"
      using assms(2-4) l uid rid c by (simp add: like_recommendation_def)
    with y lp gone show ?thesis by auto
  qed
qed

lemma like_recommendation_distinct:
  assumes "unique_constraints db"
  shows "distinct (like_pairs (snd (snd (like_recommendation sess ps cs rid db))))"
proof -
  have d: "distinct (like_pairs db)" using assms by (simp add: unique_constraints_pairs)
  have "snd (snd (like_recommendation sess ps cs rid db)) = db \<or>
        unique_constraints (snd (snd (like_recommendation sess ps cs rid db)))"
    by (auto simp: like_recommendation_def split: option.splits dest: commit_unique)
  with d show ?thesis by (auto simp: unique_constraints_pairs)
qed

lemma example_db_constraints: "unique_constraints example_db"
  by (simp add: unique_constraints_def example_db_def)

text \<open>
  C2 as stated says that a duplicate like request is a no-op or is rejected.  The handler
  is a toggle (its docstring is \<open>Like/unlike a recommendation\<close>): Alice's second like of
  recommendation 1 is answered with \<open>action = unliked\<close> and removes her Like row.
\<close>

theorem duplicate_like_unlikes:
  "(1, 1) \<in> set (like_pairs example_db) \<and>
   fst (like_recommendation (session_of 1) ''alice'' ''books'' 1 example_db) = Json ''unliked'' \<and>
   likes (snd (snd (like_recommendation (session_of 1) ''alice'' ''books'' 1 example_db))) =
     [\<lparr>l_id = 2, l_user_id = 3, l_recommendation_id = 2\<rparr>]"
  by (simp add: like_recommendation_def public_recommendation_def get_user_def commit_def
      unique_constraints_def like_pairs_def example_db_def session_of_def)

text \<open>
  C2, amended.  In a database that satisfies its unique constraints, \<open>follow_user\<close> and
  \<open>like_recommendation\<close> leave at most one row for every (follower, followed) pair and
  for every (user, recommendation) pair, whatever the request.  For a user who is logged
  in:
  \<^item> a follow request for a user who does not exist is answered 404 and changes nothing;
  \<^item> a follow request for a pair that is already there changes nothing, and one for a new
    pair adds its row; both are answered with a redirect to the referrer, or fail with
    \<open>BuildError\<close> when the request has none, in the second case after the row is stored;
  \<^item> a like request whose path does not lead through a public profile and its category
    to the recommendation is answered 404 and changes nothing, whether the pair is there
    or not;
  \<^item> a like request whose path does, for a pair that is already there, removes the row
    of the pair and is answered \<open>unliked\<close>, after which the pair is gone; for a new pair it
    adds the row and is answered \<open>liked\<close>.
  A request without a login is sent to the login page and changes nothing.
\<close>

theorem follow_like_pairs_unique:
  assumes "unique_constraints db"
  shows
    "distinct (follow_pairs (snd (snd (follow_user sess referrer target db)))) \<and>
     distinct (like_pairs (snd (snd (like_recommendation sess ps cs rid db)))) \<and>
     (s_user_id sess = None \<longrightarrow>
        follow_user sess referrer target db = (Redirect ''login'', sess, db) \<and>
        like_recommendation sess ps cs rid db = (Redirect ''login'', sess, db)) \<and>
     (\<forall>uid current_user. s_user_id sess = Some uid \<and> get_user db uid = Some current_user \<longrightarrow>
        (case get_user db target of
           None \<Rightarrow> follow_user sess referrer target db = (Abort 404, sess, db)
         | Some user_to_follow \<Rightarrow>
             follow_user sess referrer target db =
               (redirect_back referrer, sess,
                if (uid, target) \<in> set (follow_pairs db) then db
                else db\<lparr>follows := follows db @
                       [\<lparr>f_id = next_id (map f_id (follows db)), f_follower_id = uid,
                         f_followed_id = target\<rparr>]\<rparr>)) \<and>
        (case public_recommendation db ps cs rid of
           None \<Rightarrow> like_recommendation sess ps cs rid db = (Abort 404, sess, db)
         | Some r \<Rightarrow>
             if (uid, rid) \<in> set (like_pairs db)
             then \<exists>l\<in>set (likes db). l_user_id l = uid \<and> l_recommendation_id l = rid \<and>
                    like_recommendation sess ps cs rid db =
                      (Json ''unliked'', sess,
                       db\<lparr>likes := filter (\<lambda>x. l_id x \<noteq> l_id l) (likes db)\<rparr>) \<and>
                    (uid, rid) \<notin> set (like_pairs
                       (db\<lparr>likes := filter (\<lambda>x. l_id x \<noteq> l_id l) (likes db)\<rparr>))
             else like_recommendation sess ps cs rid db =
                    (Json ''liked'', sess,
                     db\<lparr>likes := likes db @
                          [\<lparr>l_id = next_id (map l_id (likes db)), l_user_id = uid,
                            l_recommendation_id = rid\<rparr>]\<rparr>)))"
proof (intro conjI impI allI)
  show "distinct (follow_pairs (snd (snd (follow_user sess referrer target db))))"
    using assms by (rule follow_user_distinct)
  show "distinct (like_pairs (snd (snd (like_recommendation sess ps cs rid db))))"
    using assms by (rule like_recommendation_distinct)
next
  assume "s_user_id sess = None"
  then show "follow_user sess referrer target db = (Redirect ''login'', sess, db)"
    by (simp add: follow_user_def)
next
  assume "s_user_id sess = None"
  then show "like_recommendation sess ps cs rid db = (Redirect ''login'', sess, db)"
    by (simp add: like_recommendation_def)
next
  fix uid current_user
  assume h: "s_user_id sess = Some uid \<and> get_user db uid = Some current_user"
  show "case get_user db target of
           None \<Rightarrow> follow_user sess referrer target db = (Abort 404, sess, db)
         | Some user_to_follow \<Rightarrow>
             follow_user sess referrer target db =
               (redirect_back referrer, sess,
                if (uid, target) \<in> set (follow_pairs db) then db
                else db\<lparr>follows := follows db @
                       [\<lparr>f_id = next_id (map f_id (follows db)), f_follower_id = uid,
                         f_followed_id = target\<rparr>]\<rparr>)"
  proof (cases "get_user db target")
    case None
    with h show ?thesis by (simp add: follow_user_def)
  next
    case (Some user_to_follow)
    from follow_user_result[OF assms h[THEN conjunct1] h[THEN conjunct2] Some, of referrer] Some
    show ?thesis by simp
  qed
next
  fix uid current_user
  assume h: "s_user_id sess = Some uid \<and> get_user db uid = Some current_user"
  show "case public_recommendation db ps cs rid of
           None \<Rightarrow> like_recommendation sess ps cs rid db = (Abort 404, sess, db)
         | Some r \<Rightarrow>
             if (uid, rid) \<in> set (like_pairs db)
             then \<exists>l\<in>set (likes db). l_user_id l = uid \<and> l_recommendation_id l = rid \<and>
                    like_recommendation sess ps cs rid db =
                      (Json ''unliked'', sess,
                       db\<lparr>likes := filter (\<lambda>x. l_id x \<noteq> l_id l) (likes db)\<rparr>) \<and>
                    (uid, rid) \<notin> set (like_pairs
                       (db\<lparr>likes := filter (\<lambda>x. l_id x \<noteq> l_id l) (likes db)\<rparr>))
             else like_recommendation sess ps cs rid db =
                    (Json ''liked'', sess,
                     db\<lparr>likes := likes db @
                          [\<lparr>l_id = next_id (map l_id (likes db)), l_user_id = uid,
                            l_recommendation_id = rid\<rparr>]\<rparr>)"
  proof (cases "public_recommendation db ps cs rid")
    case None
    with h show ?thesis by (simp add: like_recommendation_def)
  next
    case (Some r)
    from like_recommendation_result[OF assms h[THEN conjunct1] h[THEN conjunct2] Some] Some
    show ?thesis by simp
  qed
qed

text \<open>
  In the small database: Alice follows Bob a second time, with and without a referrer,
  and nothing changes; Carol follows Alice without a referrer, the row is stored and the
  request fails; Carol's like of Bob's recommendation is there, Bob's profile is private,
  and her second like request is answered 404 and leaves the row.
\<close>

theorem follow_like_pairs_unique_witness:
  "unique_constraints example_db \<and>
   (1, 2) \<in> set (follow_pairs example_db) \<and>
   follow_user (session_of 1) (Some ''/alice'') 2 example_db
     = (Redirect ''/alice'', session_of 1, example_db) \<and>
   follow_user (session_of 1) None 2 example_db
     = (Unhandled ''BuildError'', session_of 1, example_db) \<and>
   follow_user (session_of 3) None 1 example_db
     = (Unhandled ''BuildError'', session_of 3,
        example_db\<lparr>follows := follows example_db @
          [\<lparr>f_id = 2, f_follower_id = 3, f_followed_id = 1\<rparr>]\<rparr>) \<and>
   (3, 2) \<in> set (like_pairs example_db) \<and>
   like_recommendation (session_of 3) ''bob'' ''food'' 2 example_db
     = (Abort 404, session_of 3, example_db)"
proof -
  have p: "(1, 2) \<in> set (follow_pairs example_db)" "(3, 1) \<notin> set (follow_pairs example_db)"
    "next_id (map f_id (follows example_db)) = 2"
    by (simp_all add: follow_pairs_def example_db_def next_id_def)
  have l: "(3, 2) \<in> set (like_pairs example_db)"
    by (simp add: like_pairs_def example_db_def)
  have s: "s_user_id (session_of 1) = Some 1" "s_user_id (session_of 3) = Some 3"
    by (simp_all add: session_of_def)
  have u: "get_user example_db 1 = Some (users example_db ! 0)"
    "get_user example_db 2 = Some (users example_db ! 1)"
    "get_user example_db 3 = Some (users example_db ! 2)"
    by (simp_all add: get_user_def example_db_def)
  have r: "public_recommendation example_db ''bob'' ''food'' 2 = None"
    by (simp add: public_recommendation_def example_db_def)
  have b: "redirect_back (Some ''/alice'') = Redirect ''/alice''"
    "redirect_back None = Unhandled ''BuildError''"
    by (simp_all add: redirect_back_def)
  have f1: "follow_user (session_of 1) (Some ''/alice'') 2 example_db
     = (Redirect ''/alice'', session_of 1, example_db)"
    using follow_like_pairs_unique[OF example_db_constraints, where sess="session_of 1"
        and referrer="Some ''/alice''" and target=2 and ps="''alice''" and cs="''books''"
        and rid=1] s(1) u(1,2) p(1) b(1)
    by simp
  have f2: "follow_user (session_of 1) None 2 example_db
     = (Unhandled ''BuildError'', session_of 1, example_db)"
    using follow_like_pairs_unique[OF example_db_constraints, where sess="session_of 1"
        and referrer=None and target=2 and ps="''alice''" and cs="''books''"
        and rid=1] s(1) u(1,2) p(1) b(2)
    by simp
  have f3: "follow_user (session_of 3) None 1 example_db
     = (Unhandled ''BuildError'', session_of 3,
        example_db\<lparr>follows := follows example_db @
          [\<lparr>f_id = 2, f_follower_id = 3, f_followed_id = 1\<rparr>]\<rparr>)"
    using follow_like_pairs_unique[OF example_db_constraints, where sess="session_of 3"
        and referrer=None and target=1 and ps="''bob''" and cs="''food''"
        and rid=2] s(2) u(1,3) p(2,3) b(2)
    by simp
  have l1: "like_recommendation (session_of 3) ''bob'' ''food'' 2 example_db
     = (Abort 404, session_of 3, example_db)"
    using follow_like_pairs_unique[OF example_db_constraints, where sess="session_of 3"
        and referrer=None and target=1 and ps="''bob''" and cs="''food''"
        and rid=2] s(2) u(3) r
    by simp
  from example_db_constraints p(1) f1 f2 f3 l l1 show ?thesis by simp
qed

section \<open>Properties of comment deletion\<close>

lemma commit_comments:
  "unique_constraints db \<Longrightarrow> commit (db\<lparr>comments := cs\<rparr>) = Some (db\<lparr>comments := cs\<rparr>)"
  by (simp add: commit_def unique_constraints_def)

text \<open>
  C5 as stated: the comment is deleted exactly when the acting user is its author or the
  owner of the recommendation's profile.  The handler first looks the profile up with
  \<open>is_public=True\<close>: Carol wrote comment 2 on a recommendation of Bob's private profile,
  and her request to delete it is answered 404; the comment stays.
\<close>

theorem private_profile_comment_stays:
  "find (\<lambda>c. cm_id c = 2) (comments example_db) =
     Some \<lparr>cm_id = 2, cm_content = ''Yum'', cm_user_id = 3, cm_recommendation_id = 2\<rparr> \<and>
   delete_comment (session_of 3) ''bob'' ''food'' 2 2 example_db =
     (Abort 404, session_of 3, example_db)"
  by (simp add: delete_comment_def public_recommendation_def example_db_def session_of_def)

text \<open>
  C5, amended.  For a deletion request of a logged-in user: when the path does not lead,
  through a public profile, one of its categories and one of that category's
  recommendations, to a comment of that recommendation, the answer is 404 and nothing
  changes.  When it does, the comment is deleted exactly when the acting user is the
  comment's author or the user owning the recommendation's profile; any other user is
  refused and the database is unchanged.
\<close>

theorem delete_comment_authorization:
  assumes "unique_constraints db" and "s_user_id sess = Some uid" and "get_user db uid = Some cu"
  shows
    "(public_recommendation db ps cs rid = None \<longrightarrow>
        delete_comment sess ps cs rid cid db = (Abort 404, sess, db)) \<and>
     (\<forall>r. public_recommendation db ps cs rid = Some r \<and>
          find (\<lambda>c. cm_id c = cid \<and> cm_recommendation_id c = r_id r) (comments db) = None \<longrightarrow>
        delete_comment sess ps cs rid cid db = (Abort 404, sess, db)) \<and>
     (\<forall>r cm owner. public_recommendation db ps cs rid = Some r \<and>
          find (\<lambda>c. cm_id c = cid \<and> cm_recommendation_id c = r_id r) (comments db) = Some cm \<and>
          owner_of db r = Some owner \<longrightarrow>
        delete_comment sess ps cs rid cid db =
          (if cm_user_id cm = uid \<or> owner = uid
           then (Redirect ''view_recommendation: deleted'', sess,
                 db\<lparr>comments := filter (\<lambda>c. cm_id c \<noteq> cid) (comments db)\<rparr>)
           else (Redirect ''view_recommendation: refused'', sess, db)))"
proof -
  have u: "u_id cu = uid" using assms(3) by (rule get_user_id)
  have c: "cm_id cm = cid"
    if "find (\<lambda>c. cm_id c = cid \<and> cm_recommendation_id c = r_id r) (comments db) = Some cm" for cm r
    using that by (auto dest: find_Some_holds)
  show ?thesis
    using assms u c by (auto simp: delete_comment_def Let_def commit_comments)
qed

theorem delete_comment_authorization_witness:
  "unique_constraints example_db \<and>
   delete_comment (session_of 3) ''alice'' ''books'' 1 1 example_db =
     (Redirect ''view_recommendation: deleted'', session_of 3,
      example_db\<lparr>comments := filter (\<lambda>c. cm_id c \<noteq> 1) (comments example_db)\<rparr>) \<and>
   delete_comment (session_of 2) ''alice'' ''books'' 1 1 example_db =
     (Redirect ''view_recommendation: refused'', session_of 2, example_db)"
proof -
  let ?c = "\<lparr>cm_id = 1, cm_content = ''Great'', cm_user_id = 3, cm_recommendation_id = 1\<rparr>"
  let ?r = "\<lparr>r_id = 1, r_title = ''Ways of Seeing'',
          r_tags = Some [''collections'' \<mapsto> [''smart-art'']],
          r_created_at = 100, r_category_id = 1\<rparr>"
  have r: "public_recommendation example_db ''alice'' ''books'' 1 = Some ?r"
    by (simp add: public_recommendation_def example_db_def)
  have f: "find (\<lambda>c. cm_id c = 1 \<and> cm_recommendation_id c = r_id ?r) (comments example_db) = Some ?c"
    by (simp add: example_db_def)
  have ow: "owner_of example_db ?r = Some 1"
    by (simp add: owner_of_def get_category_def get_profile_def example_db_def)
  have u3: "s_user_id (session_of 3) = Some 3" "get_user example_db 3 = Some (users example_db ! 2)"
    by (simp_all add: session_of_def get_user_def example_db_def)
  have u2: "s_user_id (session_of 2) = Some 2" "get_user example_db 2 = Some (users example_db ! 1)"
    by (simp_all add: session_of_def get_user_def example_db_def)
  show ?thesis
    using delete_comment_authorization[OF example_db_constraints u3, of "''alice''" "''books''" 1 1]
      delete_comment_authorization[OF example_db_constraints u2, of "''alice''" "''books''" 1 1]
      r f ow example_db_constraints
    by simp
qed

section \<open>Properties of the cascading deletes\<close>

lemma fold_delete_likes:
  "fold session_delete_like del db =
     db\<lparr>likes := filter (\<lambda>x. l_id x \<notin> l_id ` set del) (likes db)\<rparr>"
  by (induction del arbitrary: db) (auto simp: session_delete_like_def intro: filter_cong)

lemma fold_delete_comments:
  "fold session_delete_comment del db =
     db\<lparr>comments := filter (\<lambda>x. cm_id x \<notin> cm_id ` set del) (comments db)\<rparr>"
  by (induction del arbitrary: db) (auto simp: session_delete_comment_def intro: filter_cong)

lemma filter_by_key_image:
  assumes "distinct (map key xs)"
  shows "filter (\<lambda>x. key x \<notin> key ` {y \<in> set xs. P y}) xs = filter (\<lambda>x. \<not> P x) xs"
proof (rule filter_cong[OF refl])
  fix x assume x: "x \<in> set xs"
  have "key x \<in> key ` {y \<in> set xs. P y} \<longleftrightarrow> P x"
  proof
    assume "key x \<in> key ` {y \<in> set xs. P y}"
    then obtain y where y: "y \<in> set xs" "P y" "key x = key y" by auto
    with assms x have "x = y" by (auto simp: distinct_map dest: inj_onD)
    with y show "P x" by simp
  next
    assume "P x" with x show "key x \<in> key ` {y \<in> set xs. P y}" by auto
  qed
  then show "(key x \<notin> key ` {y \<in> set xs. P y}) = (\<not> P x)" by simp
qed

lemma session_delete_recommendation_eq:
  assumes "primary_keys db"
  shows "session_delete_recommendation r db =
           db\<lparr>likes := filter (\<lambda>l. l_recommendation_id l \<noteq> r_id r) (likes db),
              comments := filter (\<lambda>c. cm_recommendation_id c \<noteq> r_id r) (comments db),
              recommendations := filter (\<lambda>x. r_id x \<noteq> r_id r) (recommendations db)\<rparr>"
  using assms
  by (simp add: session_delete_recommendation_def Let_def fold_delete_likes fold_delete_comments
      primary_keys_def filter_by_key_image)

lemma primary_keys_filter:
  "primary_keys db \<Longrightarrow>
   primary_keys (db\<lparr>likes := filter P (likes db), comments := filter Q (comments db),
                    recommendations := filter R (recommendations db)\<rparr>)"
  by (simp add: primary_keys_def distinct_map_filter)

lemma fold_delete_recommendations:
  assumes "primary_keys db"
  shows "fold session_delete_recommendation del db =
           db\<lparr>likes := filter (\<lambda>l. l_recommendation_id l \<notin> r_id ` set del) (likes db),
              comments := filter (\<lambda>c. cm_recommendation_id c \<notin> r_id ` set del) (comments db),
              recommendations := filter (\<lambda>x. r_id x \<notin> r_id ` set del) (recommendations db)\<rparr>"
  using assms
proof (induction del arbitrary: db)
  case Nil
  then show ?case by simp
next
  case (Cons r del)
  let ?d = "db\<lparr>likes := filter (\<lambda>l. l_recommendation_id l \<noteq> r_id r) (likes db),
              comments := filter (\<lambda>c. cm_recommendation_id c \<noteq> r_id r) (comments db),
              recommendations := filter (\<lambda>x. r_id x \<noteq> r_id r) (recommendations db)\<rparr>"
  have "primary_keys ?d" using Cons.prems by (rule primary_keys_filter)
  from Cons.IH[OF this] show ?case
    using Cons.prems by (auto simp: session_delete_recommendation_eq intro: filter_cong)
qed

lemma session_delete_category_eq:
  assumes "primary_keys db"
  shows "session_delete_category c db =
           db\<lparr>categories := filter (\<lambda>x. c_id x \<noteq> c_id c) (categories db),
              recommendations := filter (\<lambda>r. r_category_id r \<noteq> c_id c) (recommendations db),
              likes := filter (\<lambda>l. \<not> rec_in_category db (c_id c) (l_recommendation_id l)) (likes db),
              comments := filter (\<lambda>x. \<not> rec_in_category db (c_id c) (cm_recommendation_id x))
                            (comments db)\<rparr>"
proof -
  let ?del = "filter (\<lambda>r. r_category_id r = c_id c) (recommendations db)"
  have m: "(k \<notin> r_id ` set ?del) = (\<not> rec_in_category db (c_id c) k)" for k
    by (auto simp: rec_in_category_def list_ex_iff image_iff)
  have d: "distinct (map r_id (recommendations db))"
    using assms by (simp add: primary_keys_def)
  have r: "filter (\<lambda>x. \<not> rec_in_category db (c_id c) (r_id x)) (recommendations db) =
           filter (\<lambda>r. r_category_id r \<noteq> c_id c) (recommendations db)"
  proof (rule filter_cong[OF refl])
    fix x assume x: "x \<in> set (recommendations db)"
    have "rec_in_category db (c_id c) (r_id x) = (r_category_id x = c_id c)"
    proof
      assume "rec_in_category db (c_id c) (r_id x)"
      then obtain y where y: "y \<in> set (recommendations db)" "r_id y = r_id x"
        "r_category_id y = c_id c"
        by (auto simp: rec_in_category_def list_ex_iff)
      with d x have "y = x" by (auto simp: distinct_map dest: inj_onD)
      with y show "r_category_id x = c_id c" by simp
    next
      assume "r_category_id x = c_id c"
      with x show "rec_in_category db (c_id c) (r_id x)"
        by (auto simp: rec_in_category_def list_ex_iff)
    qed
    then show "(\<not> rec_in_category db (c_id c) (r_id x)) = (r_category_id x \<noteq> c_id c)"
      by simp
  qed
  have "fold session_delete_recommendation ?del db =
          db\<lparr>likes := filter (\<lambda>l. l_recommendation_id l \<notin> r_id ` set ?del) (likes db),
             comments := filter (\<lambda>c. cm_recommendation_id c \<notin> r_id ` set ?del) (comments db),
             recommendations := filter (\<lambda>x. r_id x \<notin> r_id ` set ?del) (recommendations db)\<rparr>"
    using assms by (rule fold_delete_recommendations)
  then show ?thesis
    unfolding session_delete_category_def Let_def m using r by simp
qed

lemma unique_constraints_delete:
  "unique_constraints db \<Longrightarrow>
   unique_constraints (db\<lparr>categories := filter P (categories db), recommendations := rs,
                          likes := filter Q (likes db), comments := cs\<rparr>)"
  by (simp add: unique_constraints_def distinct_map_filter)

text \<open>
  C8.  In a database with distinct primary keys, for the owner of the profile:
  \<open>delete_category\<close> removes the category, every recommendation of the category, and
  every like and comment of those recommendations; \<open>delete_recommendation\<close> removes the
  recommendation and every like and comment of it.  The new state is the old one with
  exactly these rows filtered out: every other row, and the tables of users, profiles and
  follows, stay as they are.
\<close>

theorem cascade_delete:
  assumes "unique_constraints db" and "primary_keys db"
    and "s_user_id sess = Some uid" and "get_user db uid = Some user"
    and "find (\<lambda>p. p_user_id p = uid) (profiles db) = Some profile"
  shows
    "(\<forall>c. find (\<lambda>c. c_id c = cid \<and> c_profile_id c = p_id profile) (categories db) = Some c \<longrightarrow>
        delete_category sess cid db =
          (Redirect ''dashboard_categories'', sess,
           db\<lparr>categories := filter (\<lambda>x. c_id x \<noteq> cid) (categories db),
              recommendations := filter (\<lambda>r. r_category_id r \<noteq> cid) (recommendations db),
              likes := filter (\<lambda>l. \<not> rec_in_category db cid (l_recommendation_id l)) (likes db),
              comments := filter (\<lambda>x. \<not> rec_in_category db cid (cm_recommendation_id x))
                            (comments db)\<rparr>)) \<and>
     (\<forall>r. find (\<lambda>r. r_id r = rid \<and>
                   list_ex (\<lambda>c. c_id c = r_category_id r \<and> c_profile_id c = p_id profile)
                     (categories db)) (recommendations db) = Some r \<longrightarrow>
        delete_recommendation sess rid db =
          (Redirect ''dashboard_recommendations'', sess,
           db\<lparr>recommendations := filter (\<lambda>x. r_id x \<noteq> rid) (recommendations db),
              likes := filter (\<lambda>l. l_recommendation_id l \<noteq> rid) (likes db),
              comments := filter (\<lambda>x. cm_recommendation_id x \<noteq> rid) (comments db)\<rparr>))"
proof (intro conjI allI impI)
  have u: "u_id user = uid" using assms(4) by (rule get_user_id)
  {
    fix c
    assume f: "find (\<lambda>c. c_id c = cid \<and> c_profile_id c = p_id profile) (categories db) = Some c"
    then have c: "c_id c = cid" by (auto dest: find_Some_holds)
    let ?db = "db\<lparr>categories := filter (\<lambda>x. c_id x \<noteq> cid) (categories db),
              recommendations := filter (\<lambda>r. r_category_id r \<noteq> cid) (recommendations db),
              likes := filter (\<lambda>l. \<not> rec_in_category db cid (l_recommendation_id l)) (likes db),
              comments := filter (\<lambda>x. \<not> rec_in_category db cid (cm_recommendation_id x))
                            (comments db)\<rparr>"
    have e: "session_delete_category c db = ?db"
      using session_delete_category_eq[OF assms(2), of c] c by simp
    have "unique_constraints ?db" using assms(1) by (rule unique_constraints_delete)
    then have "commit ?db = Some ?db" by (simp add: commit_def)
    then show "delete_category sess cid db = (Redirect ''dashboard_categories'', sess, ?db)"
      using assms(3,4,5) u f e by (simp add: delete_category_def)
  }
  {
    fix r
    assume f: "find (\<lambda>r. r_id r = rid \<and>
                   list_ex (\<lambda>c. c_id c = r_category_id r \<and> c_profile_id c = p_id profile)
                     (categories db)) (recommendations db) = Some r"
    then have r: "r_id r = rid" by (auto dest: find_Some_holds)
    let ?db = "db\<lparr>recommendations := filter (\<lambda>x. r_id x \<noteq> rid) (recommendations db),
              likes := filter (\<lambda>l. l_recommendation_id l \<noteq> rid) (likes db),
              comments := filter (\<lambda>x. cm_recommendation_id x \<noteq> rid) (comments db)\<rparr>"
    have e: "session_delete_recommendation r db = ?db"
      using session_delete_recommendation_eq[OF assms(2), of r] r by simp
    have "unique_constraints ?db"
      using assms(1) by (simp add: unique_constraints_def distinct_map_filter)
    then have "commit ?db = Some ?db" by (simp add: commit_def)
    then show "delete_recommendation sess rid db = (Redirect ''dashboard_recommendations'', sess, ?db)"
      using assms(3,4,5) u f e by (simp add: delete_recommendation_def)
  }
qed

lemma example_db_keys: "primary_keys example_db"
  by (simp add: primary_keys_def example_db_def)

theorem cascade_delete_witness:
  "unique_constraints example_db \<and> primary_keys example_db \<and>
   (let db' = snd (snd (delete_category (session_of 1) 1 example_db)) in
      map c_id (categories db') = [2] \<and> map r_id (recommendations db') = [2] \<and>
      map l_id (likes db') = [2] \<and> map cm_id (comments db') = [2] \<and>
      users db' = users example_db \<and> profiles db' = profiles example_db \<and>
      follows db' = follows example_db) \<and>
   (let db' = snd (snd (delete_recommendation (session_of 1) 1 example_db)) in
      map c_id (categories db') = [1, 2] \<and> map r_id (recommendations db') = [2] \<and>
      map l_id (likes db') = [2] \<and> map cm_id (comments db') = [2])"
proof -
  have s: "s_user_id (session_of 1) = Some 1" by (simp add: session_of_def)
  have u: "get_user example_db 1 = Some (users example_db ! 0)"
    by (simp add: get_user_def example_db_def)
  have p: "find (\<lambda>p. p_user_id p = 1) (profiles example_db) = Some (profiles example_db ! 0)"
    by (simp add: example_db_def)
  have c: "find (\<lambda>c. c_id c = 1 \<and> c_profile_id c = p_id (profiles example_db ! 0))
             (categories example_db) = Some (categories example_db ! 0)"
    by (simp add: example_db_def)
  have r: "find (\<lambda>r. r_id r = 1 \<and>
                   list_ex (\<lambda>c. c_id c = r_category_id r \<and>
                        c_profile_id c = p_id (profiles example_db ! 0))
                     (categories example_db)) (recommendations example_db) =
             Some (recommendations example_db ! 0)"
    by (simp add: example_db_def)
  note t = cascade_delete[OF example_db_constraints example_db_keys s u p, of 1 1]
  have dc: "snd (snd (delete_category (session_of 1) 1 example_db)) =
      example_db\<lparr>categories := filter (\<lambda>x. c_id x \<noteq> 1) (categories example_db),
        recommendations := filter (\<lambda>r. r_category_id r \<noteq> 1) (recommendations example_db),
        likes := filter (\<lambda>l. \<not> rec_in_category example_db 1 (l_recommendation_id l))
                   (likes example_db),
        comments := filter (\<lambda>x. \<not> rec_in_category example_db 1 (cm_recommendation_id x))
                      (comments example_db)\<rparr>"
    using t c by simp
  have dr: "snd (snd (delete_recommendation (session_of 1) 1 example_db)) =
      example_db\<lparr>recommendations := filter (\<lambda>x. r_id x \<noteq> 1) (recommendations example_db),
        likes := filter (\<lambda>l. l_recommendation_id l \<noteq> 1) (likes example_db),
        comments := filter (\<lambda>x. cm_recommendation_id x \<noteq> 1) (comments example_db)\<rparr>"
    using t r by simp
  show ?thesis
    unfolding dc dr Let_def
    by (simp add: example_db_constraints example_db_keys)
       (simp add: example_db_def rec_in_category_def)
qed

section \<open>Properties of profile creation\<close>



















section \<open>Properties of the registration flow\<close>









end
